theory Spec2Isabelle
  imports Main "HOL-Library.Word"
begin

section \<open>The platform: descriptors, errno, system calls\<close>

text \<open>
  \<^verbatim>\<open>socket.h\<close> wraps the BSD socket calls. The calls themselves are not code of the
  program: they are taken as parameters (the record \<open>os\<close> below), each a deterministic
  step of an abstract kernel state \<open>'k\<close>. A call that fails gives \<open>Fail e\<close>: the C
  function then returns -1 (NULL for a pointer) and sets \<open>errno\<close> to \<open>e\<close>; a call that
  succeeds gives \<open>Ret v\<close> and leaves \<open>errno\<close> alone. The value of a successful call
  is a byte count or a descriptor, hence never negative, or nothing (the C function
  returns 0). Name resolution is a fixed table. The platform also fixes the byte order
  and the text of \<^verbatim>\<open>strerror\<close>.
\<close>

type_synonym SOCKET = int

definition INVALID_SOCKET :: SOCKET where
  "INVALID_SOCKET = -1"

datatype errno_t =
    ENONE | EAGAIN | EWOULDBLOCK | EADDRINUSE | EACCES | EBADF | EINTR
  | EINVAL | ECONNRESET | EPIPE | ENOTSOCK | EOPNOTSUPP | EMFILE

datatype 'a sysret = Ret 'a | Fail errno_t

type_synonym in_addr = "32 word"

text \<open>\<^verbatim>\<open>sockaddr_in\<close>: the port is kept in network byte order, as the C struct has it.\<close>

record sockaddr_in =
  sin_family :: int
  sin_port :: "16 word"
  sin_addr :: in_addr

definition AF_INET :: int where
  "AF_INET = 2"

definition MSG_WAITALL :: int where
  "MSG_WAITALL = 256"

record timeval =
  tv_sec :: int
  tv_usec :: int

type_synonym fd_set = "SOCKET set"

text \<open>
  A buffer pointer is modelled by its offset from the start of the caller's buffer, so
  \<open>SysSend fd off n flags\<close> is \<^verbatim>\<open>send(fd, buf_ + off, n, flags)\<close>.
\<close>

datatype syscall =
    SysSocket
  | SysBind SOCKET sockaddr_in
  | SysListen SOCKET int
  | SysAccept SOCKET
  | SysClose SOCKET
  | SysSend SOCKET nat nat int
  | SysRecv SOCKET nat nat int
  | SysSelect int fd_set fd_set fd_set "timeval option"

text \<open>What the program saw of a call: the value returned, or the errno of its failure.\<close>

datatype outcome = Ok int | Err errno_t

type_synonym event = "syscall \<times> outcome"

record 'k os =
  little_endian :: bool
  os_strerror :: "errno_t \<Rightarrow> string"
  os_gethostbyname :: "string \<Rightarrow> in_addr option"
  os_socket :: "'k \<Rightarrow> nat sysret \<times> 'k"
  os_bind :: "'k \<Rightarrow> SOCKET \<Rightarrow> sockaddr_in \<Rightarrow> unit sysret \<times> 'k"
  os_listen :: "'k \<Rightarrow> SOCKET \<Rightarrow> int \<Rightarrow> unit sysret \<times> 'k"
  os_accept :: "'k \<Rightarrow> SOCKET \<Rightarrow> nat sysret \<times> 'k"
  os_close :: "'k \<Rightarrow> SOCKET \<Rightarrow> unit sysret \<times> 'k"
  os_send :: "'k \<Rightarrow> SOCKET \<Rightarrow> nat \<Rightarrow> nat \<Rightarrow> int \<Rightarrow> nat sysret \<times> 'k"
  os_recv :: "'k \<Rightarrow> SOCKET \<Rightarrow> nat \<Rightarrow> nat \<Rightarrow> int \<Rightarrow> nat sysret \<times> 'k"
  os_select :: "'k \<Rightarrow> int \<Rightarrow> fd_set \<Rightarrow> fd_set \<Rightarrow> fd_set \<Rightarrow> timeval option
                  \<Rightarrow> (nat \<times> fd_set \<times> fd_set \<times> fd_set) sysret \<times> 'k"

text \<open>
  The state of the process as the program can observe it: \<open>errno\<close>, the kernel, and the
  log of the system calls issued so far, oldest first.
\<close>

record 'k world =
  errno :: errno_t
  kern :: 'k
  trace :: "event list"

definition syscall_int ::
  "'k world \<Rightarrow> syscall \<Rightarrow> int sysret \<times> 'k \<Rightarrow> int \<times> 'k world" where
  "syscall_int w c r =
     (case r of
        (Ret v, k') \<Rightarrow> (v, w\<lparr>kern := k', trace := trace w @ [(c, Ok v)]\<rparr>)
      | (Fail e, k') \<Rightarrow> (-1, w\<lparr>errno := e, kern := k', trace := trace w @ [(c, Err e)]\<rparr>))"

fun ret_nat :: "nat sysret \<times> 'k \<Rightarrow> int sysret \<times> 'k" where
  "ret_nat (Ret n, k) = (Ret (int n), k)"
| "ret_nat (Fail e, k) = (Fail e, k)"

fun ret_unit :: "unit sysret \<times> 'k \<Rightarrow> int sysret \<times> 'k" where
  "ret_unit (Ret u, k) = (Ret 0, k)"
| "ret_unit (Fail e, k) = (Fail e, k)"

definition libc_send ::
  "'k os \<Rightarrow> 'k world \<Rightarrow> SOCKET \<Rightarrow> nat \<Rightarrow> nat \<Rightarrow> int \<Rightarrow> int \<times> 'k world" where
  "libc_send os w fd buf n flags =
     syscall_int w (SysSend fd buf n flags) (ret_nat (os_send os (kern w) fd buf n flags))"

definition libc_recv ::
  "'k os \<Rightarrow> 'k world \<Rightarrow> SOCKET \<Rightarrow> nat \<Rightarrow> nat \<Rightarrow> int \<Rightarrow> int \<times> 'k world" where
  "libc_recv os w fd buf n flags =
     syscall_int w (SysRecv fd buf n flags) (ret_nat (os_recv os (kern w) fd buf n flags))"

section \<open>Fatal errors\<close>

datatype fatal = Fatal string

text \<open>
  Modelled from the spec: \<^verbatim>\<open>utils::Error\<close>, \<^verbatim>\<open>utils::Check\<close> and \<^verbatim>\<open>utils::Assert\<close> of
  \<^verbatim>\<open>utils.h\<close>, which is not among the sources. The spec has them abort the current
  operation with the formatted message; the operation then has the value \<open>Inl (Fatal msg)\<close>
  and nothing after the call runs.
\<close>

definition utils_Error :: "string \<Rightarrow> fatal" where
  "utils_Error msg = Fatal msg"

text \<open>\<^verbatim>\<open>Socket::Error(msg)\<close>: \<^verbatim>\<open>utils::Error("Socket %s Error:%s", msg, strerror(errno))\<close>.\<close>

definition Socket_Error :: "'k os \<Rightarrow> 'k world \<Rightarrow> string \<Rightarrow> fatal" where
  "Socket_Error os w msg =
     (let errsv = errno w
      in utils_Error (''Socket '' @ msg @ '' Error:'' @ os_strerror os errsv))"

section \<open>TCPSocket: SendAll\<close>

record Socket =
  sockfd :: SOCKET

text \<open>
  The loop of \<^verbatim>\<open>SendAll\<close>, with its two variables \<^verbatim>\<open>buf\<close> and \<^verbatim>\<open>ndone\<close>. Nothing in the
  code bounds the number of rounds (a send of 0 bytes repeats the same call), so the loop
  is a partial function: \<open>None\<close> is the run that never returns.
\<close>

partial_function (option) SendAll_loop ::
  "'k os \<Rightarrow> SOCKET \<Rightarrow> nat \<Rightarrow> nat \<Rightarrow> nat \<Rightarrow> 'k world \<Rightarrow> ((fatal + nat) \<times> 'k world) option" where
  "SendAll_loop os fd len buf ndone w =
     (if ndone < len then
        (case libc_send os w fd buf (len - ndone) 0 of
           (ret, w1) \<Rightarrow>
             if ret = -1 then
               (if errno w1 = EAGAIN \<or> errno w1 = EWOULDBLOCK then Some (Inr ndone, w1)
                else Some (Inl (Socket_Error os w1 ''SendAll''), w1))
             else SendAll_loop os fd len (buf + nat ret) (ndone + nat ret) w1)
      else Some (Inr ndone, w))"

definition SendAll ::
  "'k os \<Rightarrow> 'k world \<Rightarrow> Socket \<Rightarrow> nat \<Rightarrow> ((fatal + nat) \<times> 'k world) option" where
  "SendAll os w s len = SendAll_loop os (sockfd s) len 0 0 w"

section \<open>TCPSocket: RecvAll\<close>

partial_function (option) RecvAll_loop ::
  "'k os \<Rightarrow> SOCKET \<Rightarrow> nat \<Rightarrow> nat \<Rightarrow> nat \<Rightarrow> 'k world \<Rightarrow> ((fatal + nat) \<times> 'k world) option" where
  "RecvAll_loop os fd len buf ndone w =
     (if ndone < len then
        (case libc_recv os w fd buf (len - ndone) MSG_WAITALL of
           (ret, w1) \<Rightarrow>
             if ret = -1 then
               (if errno w1 = EAGAIN \<or> errno w1 = EWOULDBLOCK then Some (Inr ndone, w1)
                else Some (Inl (Socket_Error os w1 ''RecvAll''), w1))
             else if ret = 0 then Some (Inr ndone, w1)
             else RecvAll_loop os fd len (buf + nat ret) (ndone + nat ret) w1)
      else Some (Inr ndone, w))"

definition RecvAll ::
  "'k os \<Rightarrow> 'k world \<Rightarrow> Socket \<Rightarrow> nat \<Rightarrow> ((fatal + nat) \<times> 'k world) option" where
  "RecvAll os w s len = RecvAll_loop os (sockfd s) len 0 0 w"

section \<open>TCPSocket: Send and Recv\<close>

definition Send :: "'k os \<Rightarrow> 'k world \<Rightarrow> Socket \<Rightarrow> nat \<Rightarrow> int \<Rightarrow> int \<times> 'k world" where
  "Send os w s len flag = (if len = 0 then (0, w) else libc_send os w (sockfd s) 0 len flag)"

definition Recv :: "'k os \<Rightarrow> 'k world \<Rightarrow> Socket \<Rightarrow> nat \<Rightarrow> int \<Rightarrow> int \<times> 'k world" where
  "Recv os w s len flags = (if len = 0 then (0, w) else libc_recv os w (sockfd s) 0 len flags)"

section \<open>SockAddr\<close>

text \<open>
  \<^verbatim>\<open>htons\<close> and \<^verbatim>\<open>ntohs\<close> of the platform: the two bytes are exchanged on a
  little-endian host and left as they are on a big-endian one.
\<close>

definition swap_bytes :: "16 word \<Rightarrow> 16 word" where
  "swap_bytes x = or (push_bit 8 x) (drop_bit 8 x)"

definition htons :: "'k os \<Rightarrow> 16 word \<Rightarrow> 16 word" where
  "htons os x = (if little_endian os then swap_bytes x else x)"

definition ntohs :: "'k os \<Rightarrow> 16 word \<Rightarrow> 16 word" where
  "ntohs os x = (if little_endian os then swap_bytes x else x)"

text \<open>
  \<^verbatim>\<open>SockAddr::Set(host, port)\<close>. The \<^verbatim>\<open>int\<close> port is converted to the \<^verbatim>\<open>uint16_t\<close>
  parameter of \<^verbatim>\<open>htons\<close>, that is, taken modulo \<open>2 ^ 16\<close>.
\<close>

definition SockAddr_Set :: "'k os \<Rightarrow> string \<Rightarrow> int \<Rightarrow> fatal + sockaddr_in" where
  "SockAddr_Set os host port =
     (case os_gethostbyname os host of
        None \<Rightarrow> Inl (utils_Error (''cannot obtain address of '' @ host))
      | Some h_addr \<Rightarrow>
          Inr \<lparr>sin_family = AF_INET, sin_port = htons os (word_of_int port), sin_addr = h_addr\<rparr>)"

definition SockAddr_port :: "'k os \<Rightarrow> sockaddr_in \<Rightarrow> int" where
  "SockAddr_port os addr = uint (ntohs os (sin_port addr))"

section \<open>Socket: Create, Bind, TryBindHost, Close\<close>

definition libc_socket :: "'k os \<Rightarrow> 'k world \<Rightarrow> int \<times> 'k world" where
  "libc_socket os w = syscall_int w SysSocket (ret_nat (os_socket os (kern w)))"

definition libc_bind :: "'k os \<Rightarrow> 'k world \<Rightarrow> SOCKET \<Rightarrow> sockaddr_in \<Rightarrow> int \<times> 'k world" where
  "libc_bind os w fd addr = syscall_int w (SysBind fd addr) (ret_unit (os_bind os (kern w) fd addr))"

definition libc_listen :: "'k os \<Rightarrow> 'k world \<Rightarrow> SOCKET \<Rightarrow> int \<Rightarrow> int \<times> 'k world" where
  "libc_listen os w fd backlog =
     syscall_int w (SysListen fd backlog) (ret_unit (os_listen os (kern w) fd backlog))"

definition libc_accept :: "'k os \<Rightarrow> 'k world \<Rightarrow> SOCKET \<Rightarrow> int \<times> 'k world" where
  "libc_accept os w fd = syscall_int w (SysAccept fd) (ret_nat (os_accept os (kern w) fd))"

definition libc_close :: "'k os \<Rightarrow> 'k world \<Rightarrow> SOCKET \<Rightarrow> int \<times> 'k world" where
  "libc_close os w fd = syscall_int w (SysClose fd) (ret_unit (os_close os (kern w) fd))"

text \<open>
  The operations that change the handle return it with the world. After a fatal error
  the handle is returned as it was when the operation aborted.
\<close>

definition TCPSocket :: "SOCKET \<Rightarrow> Socket" where
  "TCPSocket fd = \<lparr>sockfd = fd\<rparr>"

definition TCPSocket_default :: Socket where
  "TCPSocket_default = TCPSocket INVALID_SOCKET"

definition Create :: "'k os \<Rightarrow> 'k world \<Rightarrow> Socket \<Rightarrow> (fatal + unit) \<times> Socket \<times> 'k world" where
  "Create os w s =
     (case libc_socket os w of
        (fd, w1) \<Rightarrow>
          (let s1 = s\<lparr>sockfd := fd\<rparr>
           in if sockfd s1 = INVALID_SOCKET then (Inl (Socket_Error os w1 ''Create''), s1, w1)
              else (Inr (), s1, w1)))"

definition Bind :: "'k os \<Rightarrow> 'k world \<Rightarrow> Socket \<Rightarrow> sockaddr_in \<Rightarrow> (fatal + unit) \<times> 'k world" where
  "Bind os w s addr =
     (case libc_bind os w (sockfd s) addr of
        (ret, w1) \<Rightarrow>
          if ret = -1 then (Inl (Socket_Error os w1 ''Bind''), w1) else (Inr (), w1))"




text \<open>
  \<^verbatim>\<open>Socket::Close\<close>. Inside the class, \<^verbatim>\<open>Error(...)\<close> is \<^verbatim>\<open>Socket::Error\<close>. The value
  returned by \<^verbatim>\<open>close\<close> is not looked at.
\<close>

definition Close :: "'k os \<Rightarrow> 'k world \<Rightarrow> Socket \<Rightarrow> (fatal + unit) \<times> Socket \<times> 'k world" where
  "Close os w s =
     (if sockfd s \<noteq> INVALID_SOCKET then
        (case libc_close os w (sockfd s) of
           (ret, w1) \<Rightarrow> (Inr (), s\<lparr>sockfd := INVALID_SOCKET\<rparr>, w1))
      else
        (Inl (Socket_Error os w ''Socket::Close double close the socket or close without create''),
         s, w))"

section \<open>TCPSocket: Listen and Accept\<close>

definition Listen :: "'k os \<Rightarrow> 'k world \<Rightarrow> Socket \<Rightarrow> int \<Rightarrow> (fatal + unit) \<times> 'k world" where
  "Listen os w s backlog =
     (case libc_listen os w (sockfd s) backlog of (ret, w1) \<Rightarrow> (Inr (), w1))"

definition Accept :: "'k os \<Rightarrow> 'k world \<Rightarrow> Socket \<Rightarrow> (fatal + Socket) \<times> 'k world" where
  "Accept os w s =
     (case libc_accept os w (sockfd s) of
        (newfd, w1) \<Rightarrow>
          if newfd = INVALID_SOCKET then (Inl (Socket_Error os w1 ''Accept''), w1)
          else (Inr (TCPSocket newfd), w1))"

section \<open>SelectHelper\<close>

record SelectHelper =
  maxfd :: SOCKET
  read_set :: fd_set
  write_set :: fd_set
  except_set :: fd_set
  read_fds :: "SOCKET list"
  write_fds :: "SOCKET list"
  except_fds :: "SOCKET list"

definition WatchRead :: "SOCKET \<Rightarrow> SelectHelper \<Rightarrow> SelectHelper" where
  "WatchRead fd h =
     (let h1 = h\<lparr>read_fds := read_fds h @ [fd]\<rparr>
      in if fd > maxfd h1 then h1\<lparr>maxfd := fd\<rparr> else h1)"

definition WatchWrite :: "SOCKET \<Rightarrow> SelectHelper \<Rightarrow> SelectHelper" where
  "WatchWrite fd h =
     (let h1 = h\<lparr>write_fds := write_fds h @ [fd]\<rparr>
      in if fd > maxfd h1 then h1\<lparr>maxfd := fd\<rparr> else h1)"

definition WatchException :: "SOCKET \<Rightarrow> SelectHelper \<Rightarrow> SelectHelper" where
  "WatchException fd h =
     (let h1 = h\<lparr>except_fds := except_fds h @ [fd]\<rparr>
      in if fd > maxfd h1 then h1\<lparr>maxfd := fd\<rparr> else h1)"

definition Clear :: "SelectHelper \<Rightarrow> SelectHelper" where
  "Clear h = h\<lparr>read_fds := [], write_fds := [], except_fds := [], maxfd := 0\<rparr>"

text \<open>
  The constructor only calls \<^verbatim>\<open>Clear\<close>; its argument stands for the memory the object is
  built in, whose three \<^verbatim>\<open>fd_set\<close>s the constructor leaves as they are.
\<close>

definition SelectHelper_new :: "SelectHelper \<Rightarrow> SelectHelper" where
  "SelectHelper_new uninit = Clear uninit"

text \<open>
  An \<^verbatim>\<open>fd_set\<close> is a bitmap of \<^verbatim>\<open>FD_SETSIZE\<close> bits (1024 with glibc), modelled by the
  set of the descriptors whose bit is set. \<^verbatim>\<open>FD_SET(fd, &set)\<close> sets bit \<open>fd\<close>; for a
  descriptor outside \<open>[0, FD_SETSIZE)\<close> the macro writes outside the \<^verbatim>\<open>fd_set\<close>, which
  is undefined behaviour: the value \<open>None\<close>.
\<close>

definition FD_SETSIZE :: int where
  "FD_SETSIZE = 1024"

definition FD_SET :: "SOCKET \<Rightarrow> fd_set \<Rightarrow> fd_set option" where
  "FD_SET fd fds = (if 0 \<le> fd \<and> fd < FD_SETSIZE then Some (insert fd fds) else None)"

text \<open>The loop \<^verbatim>\<open>for (i = 0; i < fds.size(); ++i) FD_SET(fds[i], &set)\<close>.\<close>

fun FD_SET_each :: "SOCKET list \<Rightarrow> fd_set \<Rightarrow> fd_set option" where
  "FD_SET_each [] fds = Some fds"
| "FD_SET_each (fd # rest) fds =
     (case FD_SET fd fds of None \<Rightarrow> None | Some fds' \<Rightarrow> FD_SET_each rest fds')"

definition FD_ZERO :: fd_set where
  "FD_ZERO = {}"

text \<open>C's \<^verbatim>\<open>/\<close> and \<^verbatim>\<open>%\<close> on \<^verbatim>\<open>long\<close>: the quotient is truncated towards zero.\<close>

definition c_div :: "int \<Rightarrow> int \<Rightarrow> int" where
  "c_div a b = sgn a * sgn b * (\<bar>a\<bar> div \<bar>b\<bar>)"

definition c_mod :: "int \<Rightarrow> int \<Rightarrow> int" where
  "c_mod a b = a - b * c_div a b"

text \<open>
  \<^verbatim>\<open>select\<close> overwrites the three sets with the ready descriptors; a failed call is
  taken to leave the sets as they were passed.
\<close>

definition libc_select ::
  "'k os \<Rightarrow> 'k world \<Rightarrow> int \<Rightarrow> fd_set \<Rightarrow> fd_set \<Rightarrow> fd_set \<Rightarrow> timeval option
     \<Rightarrow> (int \<times> fd_set \<times> fd_set \<times> fd_set) \<times> 'k world" where
  "libc_select os w nfds rs ws es tm =
     (case os_select os (kern w) nfds rs ws es tm of
        (Ret (n, rs', ws', es'), k') \<Rightarrow>
          ((int n, rs', ws', es'),
           w\<lparr>kern := k', trace := trace w @ [(SysSelect nfds rs ws es tm, Ok (int n))]\<rparr>)
      | (Fail e, k') \<Rightarrow>
          ((-1, rs, ws, es),
           w\<lparr>errno := e, kern := k', trace := trace w @ [(SysSelect nfds rs ws es tm, Err e)]\<rparr>))"

text \<open>
  \<^verbatim>\<open>SelectHelper::Select\<close>. \<open>None\<close> is undefined behaviour: an \<^verbatim>\<open>FD_SET\<close> outside the
  bitmap, or the overflow of the \<^verbatim>\<open>int\<close> in \<^verbatim>\<open>maxfd + 1\<close>.
\<close>

definition INT_MAX :: int where
  "INT_MAX = 2147483647"

definition Select ::
  "'k os \<Rightarrow> 'k world \<Rightarrow> SelectHelper \<Rightarrow> int
     \<Rightarrow> ((fatal + int) \<times> SelectHelper \<times> 'k world) option" where
  "Select os w h timeout =
     (let h1 = h\<lparr>read_set := FD_ZERO, write_set := FD_ZERO, except_set := FD_ZERO\<rparr>
      in case FD_SET_each (read_fds h1) (read_set h1) of
           None \<Rightarrow> None
         | Some rs \<Rightarrow>
      (let h2 = h1\<lparr>read_set := rs\<rparr>
       in case FD_SET_each (write_fds h2) (write_set h2) of
            None \<Rightarrow> None
          | Some ws \<Rightarrow>
      (let h3 = h2\<lparr>write_set := ws\<rparr>
       in case FD_SET_each (except_fds h3) (except_set h3) of
            None \<Rightarrow> None
          | Some es \<Rightarrow>
      (let h4 = h3\<lparr>except_set := es\<rparr>;
           tm = (if timeout = 0 then None
                 else Some \<lparr>tv_sec = c_div timeout 1000, tv_usec = c_mod timeout 1000 * 1000\<rparr>)
       in if maxfd h4 + 1 > INT_MAX then None
          else
            (case libc_select os w (maxfd h4 + 1) (read_set h4) (write_set h4) (except_set h4) tm of
               ((ret, rs', ws', es'), w1) \<Rightarrow>
                 (let h5 = h4\<lparr>read_set := rs', write_set := ws', except_set := es'\<rparr>
                  in if ret = -1
                     then (let errsv = errno w1
                           in Some (Inl (utils_Error (''Select Error: '' @ os_strerror os errsv)),
                                    h5, w1))
                     else Some (Inr ret, h5, w1)))))))"

section \<open>Call sequences and platform contracts\<close>

text \<open>
  What the platform answers to a call in kernel state \<open>k\<close>: the outcome the program sees
  and the next kernel state.
\<close>

fun os_answer :: "'k os \<Rightarrow> 'k \<Rightarrow> syscall \<Rightarrow> outcome \<times> 'k" where
  "os_answer os k SysSocket =
     (case os_socket os k of (Ret n, k') \<Rightarrow> (Ok (int n), k') | (Fail e, k') \<Rightarrow> (Err e, k'))"
| "os_answer os k (SysBind fd addr) =
     (case os_bind os k fd addr of (Ret u, k') \<Rightarrow> (Ok 0, k') | (Fail e, k') \<Rightarrow> (Err e, k'))"
| "os_answer os k (SysListen fd backlog) =
     (case os_listen os k fd backlog of (Ret u, k') \<Rightarrow> (Ok 0, k') | (Fail e, k') \<Rightarrow> (Err e, k'))"
| "os_answer os k (SysAccept fd) =
     (case os_accept os k fd of (Ret n, k') \<Rightarrow> (Ok (int n), k') | (Fail e, k') \<Rightarrow> (Err e, k'))"
| "os_answer os k (SysClose fd) =
     (case os_close os k fd of (Ret u, k') \<Rightarrow> (Ok 0, k') | (Fail e, k') \<Rightarrow> (Err e, k'))"
| "os_answer os k (SysSend fd buf n fl) =
     (case os_send os k fd buf n fl of
        (Ret m, k') \<Rightarrow> (Ok (int m), k') | (Fail e, k') \<Rightarrow> (Err e, k'))"
| "os_answer os k (SysRecv fd buf n fl) =
     (case os_recv os k fd buf n fl of
        (Ret m, k') \<Rightarrow> (Ok (int m), k') | (Fail e, k') \<Rightarrow> (Err e, k'))"
| "os_answer os k (SysSelect nfds rs ws es tm) =
     (case os_select os k nfds rs ws es tm of
        (Ret (n, ready), k') \<Rightarrow> (Ok (int n), k') | (Fail e, k') \<Rightarrow> (Err e, k'))"

text \<open>
  Issuing the logged calls one after the other from kernel state \<open>k\<close>: the kernel state
  after the last one when the platform gives every call the logged outcome, \<open>None\<close> when
  it answers one of them otherwise.
\<close>

fun replay :: "'k os \<Rightarrow> 'k \<Rightarrow> event list \<Rightarrow> 'k option" where
  "replay os k [] = Some k"
| "replay os k ((c, out) # evs) =
     (case os_answer os k c of
        (out', k') \<Rightarrow> if out' = out then replay os k' evs else None)"

text \<open>\<open>errno\<close> after the logged calls: the errno of the last one that failed.\<close>

fun errno_after :: "errno_t \<Rightarrow> event list \<Rightarrow> errno_t" where
  "errno_after e0 [] = e0"
| "errno_after e0 ((c, Ok v) # evs) = errno_after e0 evs"
| "errno_after e0 ((c, Err e) # evs) = errno_after e evs"

text \<open>
  The world \<open>w'\<close> is the one reached from \<open>w\<close> by issuing exactly the calls of \<open>evs\<close>, the
  platform answering each as logged. The three fields of \<open>w'\<close> are fixed by it.
\<close>

definition reaches :: "'k os \<Rightarrow> 'k world \<Rightarrow> event list \<Rightarrow> 'k world \<Rightarrow> bool" where
  "reaches os w evs w' =
     (trace w' = trace w @ evs \<and> replay os (kern w) evs = Some (kern w') \<and>
      errno w' = errno_after (errno w) evs)"

text \<open>
  The calls of a \<^verbatim>\<open>SendAll\<close> run whose sends transmitted \<open>ns = [n1, n2, ...]\<close> bytes, as
  the specification words them: every call starts at the offset reached so far and asks
  for all that remains of the \<open>len\<close> bytes.
\<close>

fun send_events :: "SOCKET \<Rightarrow> nat \<Rightarrow> nat \<Rightarrow> nat list \<Rightarrow> event list" where
  "send_events fd len ndone [] = []"
| "send_events fd len ndone (n # ns) =
     (SysSend fd ndone (len - ndone) 0, Ok (int n)) # send_events fd len (ndone + n) ns"

text \<open>A send never reports more bytes than it was asked to transmit.\<close>

definition send_within_request :: "'k os \<Rightarrow> bool" where
  "send_within_request os =
     (\<forall>k fd buf cnt fl n k'. os_send os k fd buf cnt fl = (Ret n, k') \<longrightarrow> n \<le> cnt)"

text \<open>
  A send of a non-empty range that succeeds transmits at least one byte (a stream
  socket, blocking or not). A send may fail.
\<close>

definition send_makes_progress :: "'k os \<Rightarrow> bool" where
  "send_makes_progress os =
     (\<forall>k fd buf cnt fl n k'. 0 < cnt \<and> os_send os k fd buf cnt fl = (Ret n, k') \<longrightarrow> 0 < n)"

text \<open>
  No send ever fails, and a send of a non-empty range transmits at least one byte (a
  blocking stream socket on a connection that is never interrupted).
\<close>

definition send_always_progress :: "'k os \<Rightarrow> bool" where
  "send_always_progress os =
     (\<forall>k fd buf cnt fl. 0 < cnt \<longrightarrow>
        (\<exists>n k'. os_send os k fd buf cnt fl = (Ret n, k') \<and> 0 < n))"

text \<open>
  How a run of the \<^verbatim>\<open>SendAll\<close> loop that starts with \<open>ndone\<close> bytes done can end, given
  the byte counts \<open>ns\<close> of its successful sends: all sent; a would-block failure after
  them; any other failure after them. \<open>evs\<close> are the calls of the run and \<open>r\<close> its result.
\<close>

definition SendAll_ends ::
  "'k os \<Rightarrow> SOCKET \<Rightarrow> nat \<Rightarrow> nat \<Rightarrow> nat list \<Rightarrow> event list \<Rightarrow> fatal + nat \<Rightarrow> bool" where
  "SendAll_ends os fd len ndone ns evs r =
     (let m = ndone + sum_list ns;
          sent = send_events fd len ndone ns;
          final = SysSend fd m (len - m) 0
      in (r = Inr m \<and> len \<le> m \<and> evs = sent)
       \<or> (\<exists>e. (e = EAGAIN \<or> e = EWOULDBLOCK) \<and> r = Inr m \<and> m < len \<and>
               evs = sent @ [(final, Err e)])
       \<or> (\<exists>e. e \<noteq> EAGAIN \<and> e \<noteq> EWOULDBLOCK \<and> m < len \<and>
               r = Inl (Fatal (''Socket SendAll Error:'' @ os_strerror os e)) \<and>
               evs = sent @ [(final, Err e)]))"

text \<open>The same for \<^verbatim>\<open>RecvAll\<close>: the calls of a run whose reads delivered \<open>ns\<close> bytes.\<close>

fun recv_events :: "SOCKET \<Rightarrow> nat \<Rightarrow> nat \<Rightarrow> nat list \<Rightarrow> event list" where
  "recv_events fd len ndone [] = []"
| "recv_events fd len ndone (n # ns) =
     (SysRecv fd ndone (len - ndone) MSG_WAITALL, Ok (int n)) # recv_events fd len (ndone + n) ns"

text \<open>A receive never reports more bytes than it was asked for.\<close>

definition recv_within_request :: "'k os \<Rightarrow> bool" where
  "recv_within_request os =
     (\<forall>k fd buf cnt fl n k'. os_recv os k fd buf cnt fl = (Ret n, k') \<longrightarrow> n \<le> cnt)"

text \<open>
  The peer has closed its write side and \<open>pending k\<close> of the bytes it sent are still
  unread: a receive never fails, takes some of them (at least one while any is left,
  never more than asked for) and reports 0 once none is left.
\<close>

definition peer_closed_after :: "'k os \<Rightarrow> ('k \<Rightarrow> nat) \<Rightarrow> bool" where
  "peer_closed_after os pending =
     (\<forall>k fd buf cnt fl. 0 < cnt \<longrightarrow>
        (\<exists>n k'. os_recv os k fd buf cnt fl = (Ret n, k') \<and> n \<le> cnt \<and> n \<le> pending k \<and>
                (0 < pending k \<longrightarrow> 0 < n) \<and> pending k' = pending k - n))"

text \<open>
  How a run of the \<^verbatim>\<open>RecvAll\<close> loop can end, given the byte counts \<open>ns\<close> of its reads
  that delivered data: all received; a would-block failure; a read of 0 bytes; any other
  failure.
\<close>

definition RecvAll_ends ::
  "'k os \<Rightarrow> SOCKET \<Rightarrow> nat \<Rightarrow> nat \<Rightarrow> nat list \<Rightarrow> event list \<Rightarrow> fatal + nat \<Rightarrow> bool" where
  "RecvAll_ends os fd len ndone ns evs r =
     (let m = ndone + sum_list ns;
          got = recv_events fd len ndone ns;
          final = SysRecv fd m (len - m) MSG_WAITALL
      in (r = Inr m \<and> len \<le> m \<and> evs = got)
       \<or> (\<exists>e. (e = EAGAIN \<or> e = EWOULDBLOCK) \<and> r = Inr m \<and> m < len \<and>
               evs = got @ [(final, Err e)])
       \<or> (r = Inr m \<and> m < len \<and> evs = got @ [(final, Ok 0)])
       \<or> (\<exists>e. e \<noteq> EAGAIN \<and> e \<noteq> EWOULDBLOCK \<and> m < len \<and>
               r = Inl (Fatal (''Socket RecvAll Error:'' @ os_strerror os e)) \<and>
               evs = got @ [(final, Err e)]))"




text \<open>
  Sequences of calls on a \<^verbatim>\<open>SelectHelper\<close>, and the descriptors registered by the calls
  that follow the last \<^verbatim>\<open>Clear\<close>.
\<close>

datatype select_op =
  OpWatchRead SOCKET | OpWatchWrite SOCKET | OpWatchException SOCKET | OpClear

fun apply_select_op :: "select_op \<Rightarrow> SelectHelper \<Rightarrow> SelectHelper" where
  "apply_select_op (OpWatchRead fd) h = WatchRead fd h"
| "apply_select_op (OpWatchWrite fd) h = WatchWrite fd h"
| "apply_select_op (OpWatchException fd) h = WatchException fd h"
| "apply_select_op OpClear h = Clear h"

definition run_select_ops :: "select_op list \<Rightarrow> SelectHelper \<Rightarrow> SelectHelper" where
  "run_select_ops ops h = fold apply_select_op ops h"

definition since_clear :: "select_op list \<Rightarrow> select_op list" where
  "since_clear ops = rev (takeWhile (\<lambda>op. op \<noteq> OpClear) (rev ops))"

fun watched_read :: "select_op \<Rightarrow> SOCKET list" where
  "watched_read (OpWatchRead fd) = [fd]"
| "watched_read _ = []"

fun watched_write :: "select_op \<Rightarrow> SOCKET list" where
  "watched_write (OpWatchWrite fd) = [fd]"
| "watched_write _ = []"

fun watched_except :: "select_op \<Rightarrow> SOCKET list" where
  "watched_except (OpWatchException fd) = [fd]"
| "watched_except _ = []"

definition watched :: "select_op \<Rightarrow> SOCKET list" where
  "watched op = watched_read op @ watched_write op @ watched_except op"

definition registered :: "select_op list \<Rightarrow> SOCKET set" where
  "registered ops = set (concat (map watched (since_clear ops)))"

section \<open>A simulated platform\<close>

text \<open>
  A small concrete platform on which the model runs: a little-endian host, a peer that
  takes at most 3 bytes per send, a receive queue of \<open>k\<close> bytes (the kernel state) that
  delivers at most 2 bytes per call and then reports the end of the stream, ports 9000
  and 9001 already bound, a listen that fails on a descriptor that is not open, and
  no connection waiting to be accepted.
\<close>

definition sim_os :: "nat os" where
  "sim_os =
     \<lparr>little_endian = True,
      os_strerror = (\<lambda>e. if e = ENONE then ''Success''
                          else if e = EAGAIN then ''Resource temporarily unavailable''
                          else if e = EADDRINUSE then ''Address already in use''
                          else if e = ECONNRESET then ''Connection reset by peer''
                          else if e = EBADF then ''Bad file descriptor''
                          else if e = EINTR then ''Interrupted system call''
                          else ''Input/output error''),
      os_gethostbyname = (\<lambda>h. if h = ''0.0.0.0'' then Some 0 else
                               if h = ''127.0.0.1'' then Some 2130706433 else None),
      os_socket = (\<lambda>k. (Ret 3, k)),
      os_bind = (\<lambda>k fd a. (if sin_port a = 10275 \<or> sin_port a = 10531 then Fail EADDRINUSE
                             else Ret (), k)),
      os_listen = (\<lambda>k fd b. (if fd < 0 then Fail EBADF else Ret (), k)),
      os_accept = (\<lambda>k fd. (Fail EAGAIN, k)),
      os_close = (\<lambda>k fd. (Ret (), k)),
      os_send = (\<lambda>k fd buf cnt fl. (Ret (min cnt 3), k)),
      os_recv = (\<lambda>k fd buf cnt fl. (Ret (min cnt (min k 2)), k - min cnt (min k 2))),
      os_select = (\<lambda>k nfds rs ws es tm. (Ret (0, {}, {}, {}), k))\<rparr>"

definition sim_world :: "nat \<Rightarrow> nat world" where
  "sim_world k = \<lparr>errno = ENONE, kern = k, trace = []\<rparr>"

text \<open>The same platform with the connection reset, and with one connection waiting.\<close>

definition sim_os_reset :: "nat os" where
  "sim_os_reset =
     sim_os\<lparr>os_send := (\<lambda>k fd buf cnt fl. (Fail ECONNRESET, k)),
            os_recv := (\<lambda>k fd buf cnt fl. (Fail ECONNRESET, k))\<rparr>"

definition sim_os_peer :: "nat os" where
  "sim_os_peer = sim_os\<lparr>os_accept := (\<lambda>k fd. (Ret 4, k))\<rparr>"

text \<open>
  The same platform with non-blocking sockets: the kernel state \<open>k\<close> is the room left
  in the send buffer and the number of bytes waiting in the receive queue; a send or a
  receive takes what there is and fails with \<open>EAGAIN\<close> when there is nothing.
\<close>

definition sim_os_nonblock :: "nat os" where
  "sim_os_nonblock =
     sim_os\<lparr>os_send := (\<lambda>k fd buf cnt fl. if k = 0 then (Fail EAGAIN, k)
                                            else (Ret (min cnt k), k - min cnt k)),
            os_recv := (\<lambda>k fd buf cnt fl. if k = 0 then (Fail EAGAIN, k)
                                            else (Ret (min cnt k), k - min cnt k))\<rparr>"

text \<open>A closed descriptor cannot be closed, and a select that is interrupted.\<close>

definition sim_os_faulty :: "nat os" where
  "sim_os_faulty =
     sim_os\<lparr>os_close := (\<lambda>k fd. (Fail EBADF, k)),
            os_select := (\<lambda>k nfds rs ws es tm. (Fail EINTR, k))\<rparr>"

text \<open>A helper watching descriptors 3, 4 and 5, and a sequence of registrations.\<close>

definition sim_helper :: SelectHelper where
  "sim_helper = \<lparr>maxfd = 5, read_set = {}, write_set = {}, except_set = {},
                 read_fds = [3, 5], write_fds = [4], except_fds = []\<rparr>"

definition sim_ops :: "select_op list" where
  "sim_ops = [OpWatchRead 5, OpWatchWrite 9, OpClear, OpWatchException 4, OpWatchRead 2]"

section \<open>Properties\<close>

subsection \<open>Worlds reached by logged calls\<close>

lemma reaches_Nil: "reaches os w [] w"
  by (simp add: reaches_def)

lemma reaches_Nil_iff: "reaches os w [] w' \<longleftrightarrow> w' = w"
  by (auto simp add: reaches_def)

lemma reaches_Ok:
  "reaches os w ((c, Ok v) # evs) w' \<longleftrightarrow>
     (\<exists>k'. os_answer os (kern w) c = (Ok v, k') \<and>
           reaches os (w\<lparr>kern := k', trace := trace w @ [(c, Ok v)]\<rparr>) evs w')"
  by (cases "os_answer os (kern w) c") (auto simp add: reaches_def)

lemma reaches_Err:
  "reaches os w ((c, Err e) # evs) w' \<longleftrightarrow>
     (\<exists>k'. os_answer os (kern w) c = (Err e, k') \<and>
           reaches os (w\<lparr>errno := e, kern := k', trace := trace w @ [(c, Err e)]\<rparr>) evs w')"
  by (cases "os_answer os (kern w) c") (auto simp add: reaches_def)

subsection \<open>SendAll\<close>

lemma libc_send_Ret:
  "os_send os (kern w) fd buf n fl = (Ret m, k') \<Longrightarrow>
   libc_send os w fd buf n fl =
     (int m, w\<lparr>kern := k', trace := trace w @ [(SysSend fd buf n fl, Ok (int m))]\<rparr>)"
  by (simp add: libc_send_def syscall_int_def)

lemma libc_send_Fail:
  "os_send os (kern w) fd buf n fl = (Fail e, k') \<Longrightarrow>
   libc_send os w fd buf n fl =
     (- 1, w\<lparr>errno := e, kern := k', trace := trace w @ [(SysSend fd buf n fl, Err e)]\<rparr>)"
  by (simp add: libc_send_def syscall_int_def)

text \<open>One round of the loop, for each answer of the platform.\<close>

lemma SendAll_loop_done:
  "\<not> ndone < len \<Longrightarrow> SendAll_loop os fd len buf ndone w = Some (Inr ndone, w)"
  by (subst SendAll_loop.simps) simp

lemma SendAll_loop_Ret:
  "ndone < len \<Longrightarrow> os_send os (kern w) fd buf (len - ndone) 0 = (Ret n, k') \<Longrightarrow>
   SendAll_loop os fd len buf ndone w =
     SendAll_loop os fd len (buf + n) (ndone + n)
       (w\<lparr>kern := k', trace := trace w @ [(SysSend fd buf (len - ndone) 0, Ok (int n))]\<rparr>)"
  by (subst SendAll_loop.simps) (simp add: libc_send_Ret)

lemma SendAll_loop_Fail:
  "ndone < len \<Longrightarrow> os_send os (kern w) fd buf (len - ndone) 0 = (Fail e, k') \<Longrightarrow>
   SendAll_loop os fd len buf ndone w =
     Some (if e = EAGAIN \<or> e = EWOULDBLOCK then Inr ndone
           else Inl (Fatal (''Socket SendAll Error:'' @ os_strerror os e)),
           w\<lparr>errno := e, kern := k', trace := trace w @ [(SysSend fd buf (len - ndone) 0, Err e)]\<rparr>)"
  by (subst SendAll_loop.simps)
     (simp add: libc_send_Fail Socket_Error_def utils_Error_def)

lemma SendAll_ends_Cons:
  "SendAll_ends os fd len (ndone + n) ns evs r \<Longrightarrow>
   SendAll_ends os fd len ndone (n # ns)
     ((SysSend fd ndone (len - ndone) 0, Ok (int n)) # evs) r"
  by (simp add: SendAll_ends_def Let_def add.assoc)

lemma SendAll_loop_sound:
  "SendAll_loop os fd len buf ndone w = Some y \<Longrightarrow>
   buf = ndone \<longrightarrow>
   (\<exists>ns evs. reaches os w evs (snd y) \<and> SendAll_ends os fd len ndone ns evs (fst y))"
proof (erule SendAll_loop.raw_induct
    [where P = "\<lambda>os fd len buf ndone w y. buf = ndone \<longrightarrow>
       (\<exists>ns evs. reaches os w evs (snd y) \<and> SendAll_ends os fd len ndone ns evs (fst y))",
     rotated 1], goal_cases)
  case (1 loop os fd len buf ndone w y)
  show ?case
  proof
    assume eq: "buf = ndone"
    show "\<exists>ns evs. reaches os w evs (snd y) \<and> SendAll_ends os fd len ndone ns evs (fst y)"
    proof (cases "ndone < len")
      case False
      with 1(2) have "y = (Inr ndone, w)" by simp
      with False have "reaches os w [] (snd y) \<and> SendAll_ends os fd len ndone [] [] (fst y)"
        by (simp add: SendAll_ends_def reaches_Nil)
      then show ?thesis by blast
    next
      case True
      obtain r k' where r: "os_send os (kern w) fd buf (len - ndone) 0 = (r, k')"
        by (cases "os_send os (kern w) fd buf (len - ndone) 0")
      show ?thesis
      proof (cases r)
        case (Ret n)
        let ?c = "SysSend fd ndone (len - ndone) 0"
        let ?w1 = "w\<lparr>kern := k', trace := trace w @ [(?c, Ok (int n))]\<rparr>"
        from 1(2) True r Ret eq have "loop os fd len (buf + n) (ndone + n) ?w1 = Some y"
          by (simp add: libc_send_Ret)
        from 1(1)[OF this] eq obtain ns evs where
          run: "reaches os ?w1 evs (snd y)" "SendAll_ends os fd len (ndone + n) ns evs (fst y)"
          by auto
        from r Ret eq have "os_answer os (kern w) ?c = (Ok (int n), k')"
          by simp
        with run(1) have "reaches os w ((?c, Ok (int n)) # evs) (snd y)"
          unfolding reaches_Ok by blast
        with SendAll_ends_Cons[OF run(2)] show ?thesis by blast
      next
        case (Fail e)
        let ?c = "SysSend fd ndone (len - ndone) 0"
        let ?w1 = "w\<lparr>errno := e, kern := k', trace := trace w @ [(?c, Err e)]\<rparr>"
        from 1(2) True r Fail eq
        have y: "y = (if e = EAGAIN \<or> e = EWOULDBLOCK then (Inr ndone, ?w1)
                      else (Inl (Socket_Error os ?w1 ''SendAll''), ?w1))"
          by (auto simp add: libc_send_Fail split: if_splits)
        from r Fail eq have "os_answer os (kern w) ?c = (Err e, k')"
          by simp
        moreover have "reaches os ?w1 [] ?w1" by (rule reaches_Nil)
        ultimately have "reaches os w [(?c, Err e)] ?w1"
          unfolding reaches_Err by blast
        with y have 1: "reaches os w [(?c, Err e)] (snd y)" by simp
        from y True have 2: "SendAll_ends os fd len ndone [] [(?c, Err e)] (fst y)"
          by (auto simp add: SendAll_ends_def Socket_Error_def utils_Error_def)
        from 1 2 show ?thesis by blast
      qed
    qed
  qed
qed

lemma SendAll_loop_le:
  "SendAll_loop os fd len buf ndone w = Some y \<Longrightarrow>
   send_within_request os \<longrightarrow> ndone \<le> len \<longrightarrow> (\<forall>n. fst y = Inr n \<longrightarrow> n \<le> len)"
proof (erule SendAll_loop.raw_induct
    [where P = "\<lambda>os fd len buf ndone w y.
       send_within_request os \<longrightarrow> ndone \<le> len \<longrightarrow> (\<forall>n. fst y = Inr n \<longrightarrow> n \<le> len)",
     rotated 1], goal_cases)
  case (1 loop os fd len buf ndone w y)
  show ?case
  proof (intro impI)
    assume c: "send_within_request os" and le: "ndone \<le> len"
    show "\<forall>n. fst y = Inr n \<longrightarrow> n \<le> len"
    proof (cases "ndone < len")
      case False
      with 1(2) le show ?thesis by auto
    next
      case True
      obtain r k' where r: "os_send os (kern w) fd buf (len - ndone) 0 = (r, k')"
        by (cases "os_send os (kern w) fd buf (len - ndone) 0")
      show ?thesis
      proof (cases r)
        case (Ret n)
        with c r have "n \<le> len - ndone"
          unfolding send_within_request_def by blast
        with True have "ndone + n \<le> len" by simp
        moreover from 1(2) True r Ret
        have "loop os fd len (buf + n) (ndone + n)
                (w\<lparr>kern := k', trace := trace w @ [(SysSend fd buf (len - ndone) 0, Ok (int n))]\<rparr>) = Some y"
          by (simp add: libc_send_Ret)
        ultimately show ?thesis using 1(1) c by blast
      next
        case (Fail e)
        with 1(2) True r le show ?thesis
          by (auto simp add: libc_send_Fail split: if_splits)
      qed
    qed
  qed
qed

text \<open>The loop returns whenever a successful send makes progress, sends failing or not.\<close>

lemma SendAll_loop_returns:
  assumes p: "send_makes_progress os"
  shows "\<exists>y. SendAll_loop os fd len buf ndone w = Some y"
proof (induction "len - ndone" arbitrary: ndone buf w rule: less_induct)
  case less
  show ?case
  proof (cases "ndone < len")
    case False
    then show ?thesis by (simp add: SendAll_loop_done)
  next
    case True
    obtain r k' where r: "os_send os (kern w) fd buf (len - ndone) 0 = (r, k')"
      by (cases "os_send os (kern w) fd buf (len - ndone) 0")
    show ?thesis
    proof (cases r)
      case (Ret n)
      with p r True have "0 < n"
        unfolding send_makes_progress_def by (metis zero_less_diff)
      with True have "len - (ndone + n) < len - ndone" by simp
      from less.hyps[OF this] SendAll_loop_Ret[OF True r[unfolded Ret]]
      show ?thesis by simp
    next
      case (Fail e)
      with SendAll_loop_Fail[OF True r[unfolded Fail]] show ?thesis by simp
    qed
  qed
qed

lemma SendAll_loop_total:
  assumes p: "send_always_progress os" and c: "send_within_request os"
  shows "ndone \<le> len \<Longrightarrow> \<exists>w'. SendAll_loop os fd len buf ndone w = Some (Inr len, w')"
proof (induction "len - ndone" arbitrary: ndone buf w rule: less_induct)
  case less
  show ?case
  proof (cases "ndone < len")
    case False
    with less.prems have "ndone = len" by simp
    then show ?thesis by (simp add: SendAll_loop_done)
  next
    case True
    then have "0 < len - ndone" by simp
    with p obtain n k' where r: "os_send os (kern w) fd buf (len - ndone) 0 = (Ret n, k')"
      and n: "0 < n"
      unfolding send_always_progress_def by blast
    from c r have "n \<le> len - ndone"
      unfolding send_within_request_def by blast
    with True n have "len - (ndone + n) < len - ndone" "ndone + n \<le> len" by simp_all
    from less.hyps[OF this] SendAll_loop_Ret[OF True r] show ?thesis by simp
  qed
qed

text \<open>
  After sends that the platform answers with \<open>ns\<close> bytes, short of \<open>len\<close> in all, the
  loop is where a run from the world reached is.
\<close>

lemma SendAll_loop_prefix:
  "ndone + sum_list ns < len \<Longrightarrow> reaches os w (send_events fd len ndone ns) w1 \<Longrightarrow>
   SendAll_loop os fd len ndone ndone w =
     SendAll_loop os fd len (ndone + sum_list ns) (ndone + sum_list ns) w1"
proof (induction ns arbitrary: ndone w)
  case Nil
  then show ?case by (simp add: reaches_Nil_iff)
next
  case (Cons n ns)
  let ?c = "SysSend fd ndone (len - ndone) 0"
  from Cons.prems(2) obtain k' where
    a: "os_answer os (kern w) ?c = (Ok (int n), k')" and
    r: "reaches os (w\<lparr>kern := k', trace := trace w @ [(?c, Ok (int n))]\<rparr>)
          (send_events fd len (ndone + n) ns) w1"
    by (auto simp add: reaches_Ok)
  from a have s: "os_send os (kern w) fd ndone (len - ndone) 0 = (Ret n, k')"
    by (auto split: prod.splits sysret.splits)
  from Cons.prems(1) have lt: "ndone < len" "ndone + n + sum_list ns < len" by simp_all
  from Cons.IH[OF lt(2) r] SendAll_loop_Ret[OF lt(1) s]
  show ?case by (simp add: add.assoc)
qed


lemma SendAll_loop_complete:
  "0 \<notin> set ns \<Longrightarrow> ndone + sum_list ns = len \<Longrightarrow>
   reaches os w (send_events fd len ndone ns) w1 \<Longrightarrow>
   SendAll_loop os fd len ndone ndone w = Some (Inr len, w1)"
proof (induction ns arbitrary: ndone w)
  case Nil
  then show ?case by (simp add: reaches_Nil_iff SendAll_loop_done)
next
  case (Cons n ns)
  let ?c = "SysSend fd ndone (len - ndone) 0"
  from Cons.prems(3) obtain k' where
    a: "os_answer os (kern w) ?c = (Ok (int n), k')" and
    r: "reaches os (w\<lparr>kern := k', trace := trace w @ [(?c, Ok (int n))]\<rparr>)
          (send_events fd len (ndone + n) ns) w1"
    by (auto simp add: reaches_Ok)
  from a have s: "os_send os (kern w) fd ndone (len - ndone) 0 = (Ret n, k')"
    by (auto split: prod.splits sysret.splits)
  from Cons.prems(1,2) have lt: "ndone < len" "0 \<notin> set ns" "ndone + n + sum_list ns = len"
    by simp_all
  from Cons.IH[OF lt(2,3) r] SendAll_loop_Ret[OF lt(1) s]
  show ?case by simp
qed

lemma sim_send_within: "send_within_request sim_os"
  by (simp add: send_within_request_def sim_os_def)

lemma sim_send_progress: "send_always_progress sim_os"
  by (simp add: send_always_progress_def sim_os_def)

lemma sim_nonblock_send_within: "send_within_request sim_os_nonblock"
  by (auto simp add: send_within_request_def sim_os_nonblock_def sim_os_def split: if_splits)

lemma sim_nonblock_send_progress: "send_makes_progress sim_os_nonblock"
  by (auto simp add: send_makes_progress_def sim_os_nonblock_def sim_os_def split: if_splits)

lemma sim_reset_send_within: "send_within_request sim_os_reset"
  by (simp add: send_within_request_def sim_os_reset_def sim_os_def)

text \<open>
  C1. On a platform whose sends never report more than was requested: every run of
  \<^verbatim>\<open>SendAll\<close> that returns has issued only sends, each at the offset reached so far and
  for the remaining count, the platform answering each as logged, and ends in one of
  three ways: the whole buffer was sent and the result is exactly \<open>len\<close>; the last send
  failed with \<open>EAGAIN\<close> or \<open>EWOULDBLOCK\<close> and the result is the count sent before it; the
  last send failed with another errno and the operation aborted with the message of
  \<^verbatim>\<open>Socket::Error\<close>. \<^verbatim>\<open>SendAll\<close> does return whenever a successful send of a non-empty
  range transmits at least one byte, whether sends fail or not. When the platform
  transmits \<open>ns\<close> bytes, short of \<open>len\<close>, and then fails the next send, \<^verbatim>\<open>SendAll\<close> returns
  the partial count if the errno is \<open>EAGAIN\<close> or \<open>EWOULDBLOCK\<close> and aborts otherwise; when
  it transmits \<open>len\<close> bytes in non-empty pieces, \<^verbatim>\<open>SendAll\<close> returns \<open>len\<close>. So when no send
  ever fails and each transmits at least one byte, \<^verbatim>\<open>SendAll\<close> returns \<open>len\<close>.
\<close>

theorem SendAll_correct:
  assumes c: "send_within_request os"
  shows "(\<forall>r w'. SendAll os w s len = Some (r, w') \<longrightarrow>
            (\<exists>ns evs. sum_list ns \<le> len \<and> reaches os w evs w' \<and>
               ((r = Inr len \<and> sum_list ns = len \<and> evs = send_events (sockfd s) len 0 ns)
              \<or> (\<exists>e. (e = EAGAIN \<or> e = EWOULDBLOCK) \<and>
                      r = Inr (sum_list ns) \<and> sum_list ns < len \<and>
                      evs = send_events (sockfd s) len 0 ns @
                        [(SysSend (sockfd s) (sum_list ns) (len - sum_list ns) 0, Err e)])
              \<or> (\<exists>e. e \<noteq> EAGAIN \<and> e \<noteq> EWOULDBLOCK \<and>
                      r = Inl (Fatal (''Socket SendAll Error:'' @ os_strerror os e)) \<and>
                      sum_list ns < len \<and>
                      evs = send_events (sockfd s) len 0 ns @
                        [(SysSend (sockfd s) (sum_list ns) (len - sum_list ns) 0, Err e)]))))
       \<and> (send_makes_progress os \<longrightarrow> (\<exists>r w'. SendAll os w s len = Some (r, w')))
       \<and> (\<forall>ns w1 e k'.
             sum_list ns < len \<and> reaches os w (send_events (sockfd s) len 0 ns) w1 \<and>
             os_send os (kern w1) (sockfd s) (sum_list ns) (len - sum_list ns) 0 = (Fail e, k') \<longrightarrow>
             SendAll os w s len =
               Some (if e = EAGAIN \<or> e = EWOULDBLOCK then Inr (sum_list ns)
                     else Inl (Fatal (''Socket SendAll Error:'' @ os_strerror os e)),
                     w1\<lparr>errno := e, kern := k',
                        trace := trace w1 @
                          [(SysSend (sockfd s) (sum_list ns) (len - sum_list ns) 0, Err e)]\<rparr>))
       \<and> (\<forall>ns w1. 0 \<notin> set ns \<and> sum_list ns = len \<and>
             reaches os w (send_events (sockfd s) len 0 ns) w1 \<longrightarrow>
             SendAll os w s len = Some (Inr len, w1))
       \<and> (send_always_progress os \<longrightarrow> (\<exists>w'. SendAll os w s len = Some (Inr len, w')))"
proof (intro conjI allI impI)
  fix r w'
  assume run: "SendAll os w s len = Some (r, w')"
  then have loop: "SendAll_loop os (sockfd s) len 0 0 w = Some (r, w')"
    by (simp add: SendAll_def)
  from SendAll_loop_sound[OF loop] obtain ns evs where
    ns: "reaches os w evs w'" "SendAll_ends os (sockfd s) len 0 ns evs r" by auto
  from SendAll_loop_le[OF loop] c have le: "\<And>n. r = Inr n \<Longrightarrow> n \<le> len" by simp
  from ns le show "\<exists>ns evs. sum_list ns \<le> len \<and> reaches os w evs w' \<and>
               ((r = Inr len \<and> sum_list ns = len \<and> evs = send_events (sockfd s) len 0 ns)
              \<or> (\<exists>e. (e = EAGAIN \<or> e = EWOULDBLOCK) \<and>
                      r = Inr (sum_list ns) \<and> sum_list ns < len \<and>
                      evs = send_events (sockfd s) len 0 ns @
                        [(SysSend (sockfd s) (sum_list ns) (len - sum_list ns) 0, Err e)])
              \<or> (\<exists>e. e \<noteq> EAGAIN \<and> e \<noteq> EWOULDBLOCK \<and>
                      r = Inl (Fatal (''Socket SendAll Error:'' @ os_strerror os e)) \<and>
                      sum_list ns < len \<and>
                      evs = send_events (sockfd s) len 0 ns @
                        [(SysSend (sockfd s) (sum_list ns) (len - sum_list ns) 0, Err e)]))"
    unfolding SendAll_ends_def Let_def
    by (intro exI[of _ ns] exI[of _ evs]) (use le in force)
next
  assume "send_makes_progress os"
  from SendAll_loop_returns[OF this, of "sockfd s" len 0 0 w]
  show "\<exists>r w'. SendAll os w s len = Some (r, w')"
    by (auto simp add: SendAll_def)
next
  fix ns w1 e k'
  assume "sum_list ns < len \<and> reaches os w (send_events (sockfd s) len 0 ns) w1 \<and>
          os_send os (kern w1) (sockfd s) (sum_list ns) (len - sum_list ns) 0 = (Fail e, k')"
  then have lt: "sum_list ns < len"
    and r: "reaches os w (send_events (sockfd s) len 0 ns) w1"
    and f: "os_send os (kern w1) (sockfd s) (sum_list ns) (len - sum_list ns) 0 = (Fail e, k')"
    by simp_all
  from SendAll_loop_prefix[of 0 ns len os w "sockfd s" w1] lt r
  have "SendAll_loop os (sockfd s) len 0 0 w =
          SendAll_loop os (sockfd s) len (sum_list ns) (sum_list ns) w1"
    by simp
  with SendAll_loop_Fail[OF lt f]
  show "SendAll os w s len =
               Some (if e = EAGAIN \<or> e = EWOULDBLOCK then Inr (sum_list ns)
                     else Inl (Fatal (''Socket SendAll Error:'' @ os_strerror os e)),
                     w1\<lparr>errno := e, kern := k',
                        trace := trace w1 @
                          [(SysSend (sockfd s) (sum_list ns) (len - sum_list ns) 0, Err e)]\<rparr>)"
    by (simp add: SendAll_def)
next
  fix ns w1
  assume "0 \<notin> set ns \<and> sum_list ns = len \<and>
          reaches os w (send_events (sockfd s) len 0 ns) w1"
  then show "SendAll os w s len = Some (Inr len, w1)"
    using SendAll_loop_complete[of ns 0 len os w "sockfd s" w1]
    by (simp add: SendAll_def)
next
  assume "send_always_progress os"
  from SendAll_loop_total[OF this c, of 0 len] show "\<exists>w'. SendAll os w s len = Some (Inr len, w')"
    by (simp add: SendAll_def)
qed

theorem SendAll_correct_witness:
  "send_within_request sim_os_nonblock \<and> send_makes_progress sim_os_nonblock \<and>
   send_always_progress sim_os \<and>
   SendAll sim_os_nonblock (sim_world 3) (TCPSocket 7) 5 =
     Some (Inr 3, \<lparr>errno = EAGAIN, kern = 0,
                   trace = [(SysSend 7 0 5 0, Ok 3), (SysSend 7 3 2 0, Err EAGAIN)]\<rparr>) \<and>
   SendAll sim_os_reset (sim_world 0) (TCPSocket 7) 5 =
     Some (Inl (Fatal ''Socket SendAll Error:Connection reset by peer''),
           \<lparr>errno = ECONNRESET, kern = 0, trace = [(SysSend 7 0 5 0, Err ECONNRESET)]\<rparr>) \<and>
   SendAll sim_os (sim_world 0) (TCPSocket 7) 5 =
     Some (Inr 5, \<lparr>errno = ENONE, kern = 0,
                   trace = [(SysSend 7 0 5 0, Ok 3), (SysSend 7 3 2 0, Ok 2)]\<rparr>) \<and>
   (\<exists>r w'. SendAll sim_os_nonblock (sim_world 9) (TCPSocket 7) 5 = Some (r, w')) \<and>
   (\<exists>ns e. (e = EAGAIN \<or> e = EWOULDBLOCK) \<and> sum_list ns = 3 \<and>
      reaches sim_os_nonblock (sim_world 3)
        (send_events 7 5 0 ns @ [(SysSend 7 3 2 0, Err e)])
        \<lparr>errno = EAGAIN, kern = 0,
          trace = [(SysSend 7 0 5 0, Ok 3), (SysSend 7 3 2 0, Err EAGAIN)]\<rparr>)"
proof -
  note nb = SendAll_correct[OF sim_nonblock_send_within, of "sim_world 3" "TCPSocket 7" 5]
  note rs = SendAll_correct[OF sim_reset_send_within, of "sim_world 0" "TCPSocket 7" 5]
  note bl = SendAll_correct[OF sim_send_within, of "sim_world 0" "TCPSocket 7" 5]
  have fd: "sockfd (TCPSocket 7) = 7" by (simp add: TCPSocket_def)
  \<comment> \<open>3 bytes, then would-block\<close>
  have r1: "reaches sim_os_nonblock (sim_world 3) (send_events 7 5 0 [3])
              \<lparr>errno = ENONE, kern = 0, trace = [(SysSend 7 0 5 0, Ok 3)]\<rparr>"
    by (simp add: reaches_def sim_os_nonblock_def sim_os_def sim_world_def)
  have f1: "os_send sim_os_nonblock 0 7 3 2 0 = (Fail EAGAIN, 0)"
    by (simp add: sim_os_nonblock_def sim_os_def)
  from nb[THEN conjunct2, THEN conjunct2, THEN conjunct1, rule_format,
      of "[3]" "\<lparr>errno = ENONE, kern = 0, trace = [(SysSend 7 0 5 0, Ok 3)]\<rparr>" EAGAIN 0]
    r1 f1 fd
  have 1: "SendAll sim_os_nonblock (sim_world 3) (TCPSocket 7) 5 =
     Some (Inr 3, \<lparr>errno = EAGAIN, kern = 0,
                   trace = [(SysSend 7 0 5 0, Ok 3), (SysSend 7 3 2 0, Err EAGAIN)]\<rparr>)"
    by simp
  \<comment> \<open>the first send fails with another errno\<close>
  have f2: "os_send sim_os_reset (kern (sim_world 0)) 7 0 5 0 = (Fail ECONNRESET, 0)"
    and m2: "os_strerror sim_os_reset ECONNRESET = ''Connection reset by peer''"
    by (simp_all add: sim_os_reset_def sim_os_def sim_world_def)
  from rs[THEN conjunct2, THEN conjunct2, THEN conjunct1, rule_format,
      of "[]" "sim_world 0" ECONNRESET 0] f2 m2 fd
  have 2: "SendAll sim_os_reset (sim_world 0) (TCPSocket 7) 5 =
     Some (Inl (Fatal ''Socket SendAll Error:Connection reset by peer''),
           \<lparr>errno = ECONNRESET, kern = 0, trace = [(SysSend 7 0 5 0, Err ECONNRESET)]\<rparr>)"
    by (simp add: reaches_Nil sim_world_def)
  \<comment> \<open>3 bytes, then 2 bytes\<close>
  have r3: "reaches sim_os (sim_world 0) (send_events 7 5 0 [3, 2])
              \<lparr>errno = ENONE, kern = 0,
                trace = [(SysSend 7 0 5 0, Ok 3), (SysSend 7 3 2 0, Ok 2)]\<rparr>"
    by (simp add: reaches_def sim_os_def sim_world_def)
  from bl[THEN conjunct2, THEN conjunct2, THEN conjunct2, THEN conjunct1, rule_format,
      of "[3, 2]"] r3 fd
  have 3: "SendAll sim_os (sim_world 0) (TCPSocket 7) 5 =
     Some (Inr 5, \<lparr>errno = ENONE, kern = 0,
                   trace = [(SysSend 7 0 5 0, Ok 3), (SysSend 7 3 2 0, Ok 2)]\<rparr>)"
    by simp
  \<comment> \<open>every run returns\<close>
  from SendAll_correct[OF sim_nonblock_send_within, of "sim_world 9" "TCPSocket 7" 5]
    sim_nonblock_send_progress
  have 4: "\<exists>r w'. SendAll sim_os_nonblock (sim_world 9) (TCPSocket 7) 5 = Some (r, w')"
    by blast
  \<comment> \<open>the run that returned 3 is one of the three endings\<close>
  let ?w' = "\<lparr>errno = EAGAIN, kern = 0 :: nat,
               trace = [(SysSend 7 0 5 0, Ok 3), (SysSend 7 3 2 0, Err EAGAIN)]\<rparr>"
  from nb[THEN conjunct1, rule_format, OF 1] obtain ns evs e where
    a: "reaches sim_os_nonblock (sim_world 3) evs ?w'" "e = EAGAIN \<or> e = EWOULDBLOCK"
       "sum_list ns = 3"
       "evs = send_events 7 5 0 ns @ [(SysSend 7 (sum_list ns) (5 - sum_list ns) 0, Err e)]"
    by (auto simp add: fd)
  then have "reaches sim_os_nonblock (sim_world 3)
               (send_events 7 5 0 ns @ [(SysSend 7 3 2 0, Err e)]) ?w'"
    by simp
  with a(2,3)
  have 5: "\<exists>ns e. (e = EAGAIN \<or> e = EWOULDBLOCK) \<and> sum_list ns = 3 \<and>
      reaches sim_os_nonblock (sim_world 3)
        (send_events 7 5 0 ns @ [(SysSend 7 3 2 0, Err e)]) ?w'"
    by blast
  from sim_nonblock_send_within sim_nonblock_send_progress sim_send_progress 1 2 3 4 5
  show ?thesis by blast
qed

subsection \<open>RecvAll\<close>

lemma libc_recv_Ret:
  "os_recv os (kern w) fd buf n fl = (Ret m, k') \<Longrightarrow>
   libc_recv os w fd buf n fl =
     (int m, w\<lparr>kern := k', trace := trace w @ [(SysRecv fd buf n fl, Ok (int m))]\<rparr>)"
  by (simp add: libc_recv_def syscall_int_def)

lemma libc_recv_Fail:
  "os_recv os (kern w) fd buf n fl = (Fail e, k') \<Longrightarrow>
   libc_recv os w fd buf n fl =
     (- 1, w\<lparr>errno := e, kern := k', trace := trace w @ [(SysRecv fd buf n fl, Err e)]\<rparr>)"
  by (simp add: libc_recv_def syscall_int_def)

text \<open>One round of the loop, for each answer of the platform.\<close>

lemma RecvAll_loop_done:
  "\<not> ndone < len \<Longrightarrow> RecvAll_loop os fd len buf ndone w = Some (Inr ndone, w)"
  by (subst RecvAll_loop.simps) simp

lemma RecvAll_loop_Ret:
  "ndone < len \<Longrightarrow> os_recv os (kern w) fd buf (len - ndone) MSG_WAITALL = (Ret n, k') \<Longrightarrow>
   0 < n \<Longrightarrow>
   RecvAll_loop os fd len buf ndone w =
     RecvAll_loop os fd len (buf + n) (ndone + n)
       (w\<lparr>kern := k',
          trace := trace w @ [(SysRecv fd buf (len - ndone) MSG_WAITALL, Ok (int n))]\<rparr>)"
  by (subst RecvAll_loop.simps) (simp add: libc_recv_Ret)

lemma RecvAll_loop_zero:
  "ndone < len \<Longrightarrow> os_recv os (kern w) fd buf (len - ndone) MSG_WAITALL = (Ret 0, k') \<Longrightarrow>
   RecvAll_loop os fd len buf ndone w =
     Some (Inr ndone,
           w\<lparr>kern := k', trace := trace w @ [(SysRecv fd buf (len - ndone) MSG_WAITALL, Ok 0)]\<rparr>)"
  by (subst RecvAll_loop.simps) (simp add: libc_recv_Ret)

lemma RecvAll_loop_Fail:
  "ndone < len \<Longrightarrow> os_recv os (kern w) fd buf (len - ndone) MSG_WAITALL = (Fail e, k') \<Longrightarrow>
   RecvAll_loop os fd len buf ndone w =
     Some (if e = EAGAIN \<or> e = EWOULDBLOCK then Inr ndone
           else Inl (Fatal (''Socket RecvAll Error:'' @ os_strerror os e)),
           w\<lparr>errno := e, kern := k',
             trace := trace w @ [(SysRecv fd buf (len - ndone) MSG_WAITALL, Err e)]\<rparr>)"
  by (subst RecvAll_loop.simps)
     (simp add: libc_recv_Fail Socket_Error_def utils_Error_def)

lemma RecvAll_ends_Cons:
  "RecvAll_ends os fd len (ndone + n) ns evs r \<Longrightarrow>
   RecvAll_ends os fd len ndone (n # ns)
     ((SysRecv fd ndone (len - ndone) MSG_WAITALL, Ok (int n)) # evs) r"
  by (simp add: RecvAll_ends_def Let_def add.assoc)

lemma RecvAll_loop_sound:
  "RecvAll_loop os fd len buf ndone w = Some y \<Longrightarrow>
   buf = ndone \<longrightarrow>
   (\<exists>ns evs. 0 \<notin> set ns \<and> reaches os w evs (snd y) \<and>
              RecvAll_ends os fd len ndone ns evs (fst y))"
proof (erule RecvAll_loop.raw_induct
    [where P = "\<lambda>os fd len buf ndone w y. buf = ndone \<longrightarrow>
       (\<exists>ns evs. 0 \<notin> set ns \<and> reaches os w evs (snd y) \<and>
                  RecvAll_ends os fd len ndone ns evs (fst y))",
     rotated 1], goal_cases)
  case (1 loop os fd len buf ndone w y)
  show ?case
  proof
    assume eq: "buf = ndone"
    let ?c = "SysRecv fd ndone (len - ndone) MSG_WAITALL"
    show "\<exists>ns evs. 0 \<notin> set ns \<and> reaches os w evs (snd y) \<and>
                    RecvAll_ends os fd len ndone ns evs (fst y)"
    proof (cases "ndone < len")
      case False
      with 1(2) have "y = (Inr ndone, w)" by simp
      with False have "0 \<notin> set ([] :: nat list) \<and> reaches os w [] (snd y) \<and>
                       RecvAll_ends os fd len ndone [] [] (fst y)"
        by (simp add: RecvAll_ends_def reaches_Nil)
      then show ?thesis by blast
    next
      case True
      obtain r k' where r: "os_recv os (kern w) fd buf (len - ndone) MSG_WAITALL = (r, k')"
        by (cases "os_recv os (kern w) fd buf (len - ndone) MSG_WAITALL")
      show ?thesis
      proof (cases r)
        case (Ret n)
        let ?w1 = "w\<lparr>kern := k', trace := trace w @ [(?c, Ok (int n))]\<rparr>"
        from r Ret eq have ans: "os_answer os (kern w) ?c = (Ok (int n), k')"
          by simp
        show ?thesis
        proof (cases "n = 0")
          case z: True
          with 1(2) True r Ret eq have y: "y = (Inr ndone, ?w1)"
            by (simp add: libc_recv_Ret)
          from ans reaches_Nil[of os ?w1] have "reaches os w [(?c, Ok (int n))] ?w1"
            unfolding reaches_Ok by blast
          with y z have 1: "reaches os w [(?c, Ok 0)] (snd y)" by simp
          from y True have 2: "RecvAll_ends os fd len ndone [] [(?c, Ok 0)] (fst y)"
            by (simp add: RecvAll_ends_def)
          from 1 2 have "0 \<notin> set ([] :: nat list) \<and> reaches os w [(?c, Ok 0)] (snd y) \<and>
                         RecvAll_ends os fd len ndone [] [(?c, Ok 0)] (fst y)"
            by simp
          then show ?thesis by blast
        next
          case False
          with 1(2) True r Ret eq have "loop os fd len (buf + n) (ndone + n) ?w1 = Some y"
            by (simp add: libc_recv_Ret)
          from 1(1)[OF this] eq obtain ns evs where
            run: "0 \<notin> set ns" "reaches os ?w1 evs (snd y)"
                 "RecvAll_ends os fd len (ndone + n) ns evs (fst y)"
            by auto
          from ans run(2) have "reaches os w ((?c, Ok (int n)) # evs) (snd y)"
            unfolding reaches_Ok by blast
          with RecvAll_ends_Cons[OF run(3)] run(1) False
          have "0 \<notin> set (n # ns) \<and> reaches os w ((?c, Ok (int n)) # evs) (snd y) \<and>
                RecvAll_ends os fd len ndone (n # ns) ((?c, Ok (int n)) # evs) (fst y)"
            by simp
          then show ?thesis by blast
        qed
      next
        case (Fail e)
        let ?w1 = "w\<lparr>errno := e, kern := k', trace := trace w @ [(?c, Err e)]\<rparr>"
        from 1(2) True r Fail eq
        have y: "y = (if e = EAGAIN \<or> e = EWOULDBLOCK then (Inr ndone, ?w1)
                      else (Inl (Socket_Error os ?w1 ''RecvAll''), ?w1))"
          by (auto simp add: libc_recv_Fail split: if_splits)
        from r Fail eq have "os_answer os (kern w) ?c = (Err e, k')"
          by simp
        with reaches_Nil[of os ?w1] have "reaches os w [(?c, Err e)] ?w1"
          unfolding reaches_Err by blast
        with y have 1: "reaches os w [(?c, Err e)] (snd y)" by simp
        from y True have 2: "RecvAll_ends os fd len ndone [] [(?c, Err e)] (fst y)"
          by (auto simp add: RecvAll_ends_def Socket_Error_def utils_Error_def)
        from 1 2 have "0 \<notin> set ([] :: nat list) \<and> reaches os w [(?c, Err e)] (snd y) \<and>
                       RecvAll_ends os fd len ndone [] [(?c, Err e)] (fst y)"
          by simp
        then show ?thesis by blast
      qed
    qed
  qed
qed

lemma RecvAll_loop_le:
  "RecvAll_loop os fd len buf ndone w = Some y \<Longrightarrow>
   recv_within_request os \<longrightarrow> ndone \<le> len \<longrightarrow> (\<forall>n. fst y = Inr n \<longrightarrow> n \<le> len)"
proof (erule RecvAll_loop.raw_induct
    [where P = "\<lambda>os fd len buf ndone w y.
       recv_within_request os \<longrightarrow> ndone \<le> len \<longrightarrow> (\<forall>n. fst y = Inr n \<longrightarrow> n \<le> len)",
     rotated 1], goal_cases)
  case (1 loop os fd len buf ndone w y)
  show ?case
  proof (intro impI)
    assume c: "recv_within_request os" and le: "ndone \<le> len"
    show "\<forall>n. fst y = Inr n \<longrightarrow> n \<le> len"
    proof (cases "ndone < len")
      case False
      with 1(2) le show ?thesis by auto
    next
      case True
      obtain r k' where r: "os_recv os (kern w) fd buf (len - ndone) MSG_WAITALL = (r, k')"
        by (cases "os_recv os (kern w) fd buf (len - ndone) MSG_WAITALL")
      show ?thesis
      proof (cases r)
        case (Ret n)
        with c r have "n \<le> len - ndone"
          unfolding recv_within_request_def by blast
        with True have n: "ndone + n \<le> len" by simp
        show ?thesis
        proof (cases "n = 0")
          case True
          with 1(2) \<open>ndone < len\<close> r Ret le show ?thesis
            by (auto simp add: libc_recv_Ret)
        next
          case False
          with 1(2) True r Ret
          have "loop os fd len (buf + n) (ndone + n)
                  (w\<lparr>kern := k',
                      trace := trace w @ [(SysRecv fd buf (len - ndone) MSG_WAITALL, Ok (int n))]\<rparr>)
                = Some y"
            by (simp add: libc_recv_Ret)
          with n show ?thesis using 1(1) c by blast
        qed
      next
        case (Fail e)
        with 1(2) True r le show ?thesis
          by (auto simp add: libc_recv_Fail split: if_splits)
      qed
    qed
  qed
qed

text \<open>The loop always returns: a round that goes on has received at least one byte.\<close>

lemma RecvAll_loop_returns: "\<exists>y. RecvAll_loop os fd len buf ndone w = Some y"
proof (induction "len - ndone" arbitrary: ndone buf w rule: less_induct)
  case less
  show ?case
  proof (cases "ndone < len")
    case False
    then show ?thesis by (simp add: RecvAll_loop_done)
  next
    case True
    obtain r k' where r: "os_recv os (kern w) fd buf (len - ndone) MSG_WAITALL = (r, k')"
      by (cases "os_recv os (kern w) fd buf (len - ndone) MSG_WAITALL")
    show ?thesis
    proof (cases r)
      case (Ret n)
      show ?thesis
      proof (cases "n = 0")
        case z: True
        with RecvAll_loop_zero[OF True, of os w fd buf k'] r Ret show ?thesis by simp
      next
        case False
        then have n: "0 < n" by simp
        with True have "len - (ndone + n) < len - ndone" by simp
        from less.hyps[OF this] RecvAll_loop_Ret[OF True r[unfolded Ret] n]
        show ?thesis by simp
      qed
    next
      case (Fail e)
      with RecvAll_loop_Fail[OF True r[unfolded Fail]] show ?thesis by simp
    qed
  qed
qed

lemma RecvAll_loop_stream:
  assumes p: "peer_closed_after os pending"
  shows "ndone \<le> len \<Longrightarrow>
         \<exists>w'. RecvAll_loop os fd len buf ndone w = Some (Inr (min len (ndone + pending (kern w))), w')"
proof (induction "len - ndone" arbitrary: ndone buf w rule: less_induct)
  case less
  show ?case
  proof (cases "ndone < len")
    case False
    with less.prems have "ndone = len" by simp
    then show ?thesis by (simp add: RecvAll_loop_done)
  next
    case True
    then have "0 < len - ndone" by simp
    with p obtain n k' where
      r: "os_recv os (kern w) fd buf (len - ndone) MSG_WAITALL = (Ret n, k')"
      and n: "n \<le> len - ndone" "n \<le> pending (kern w)" "0 < pending (kern w) \<longrightarrow> 0 < n"
         "pending k' = pending (kern w) - n"
      unfolding peer_closed_after_def by blast
    let ?w1 = "w\<lparr>kern := k',
      trace := trace w @ [(SysRecv fd buf (len - ndone) MSG_WAITALL, Ok (int n))]\<rparr>"
    show ?thesis
    proof (cases "n = 0")
      case z: True
      with n have "pending (kern w) = 0" by simp
      with True RecvAll_loop_zero[OF True, of os w fd buf k'] r z show ?thesis
        by simp
    next
      case False
      then have pos: "0 < n" by simp
      with True n have "len - (ndone + n) < len - ndone" "ndone + n \<le> len" by simp_all
      from less.hyps[OF this, of "buf + n" ?w1] obtain w' where
        "RecvAll_loop os fd len (buf + n) (ndone + n) ?w1
           = Some (Inr (min len (ndone + n + pending k')), w')" by auto
      moreover from n have "ndone + n + pending k' = ndone + pending (kern w)" by simp
      ultimately show ?thesis using RecvAll_loop_Ret[OF True r pos]
        by simp
    qed
  qed
qed

text \<open>
  After reads that the platform answers with \<open>ns\<close> bytes, none of them empty and short of
  \<open>len\<close> in all, the loop is where a run from the world reached is.
\<close>

lemma RecvAll_loop_prefix:
  "0 \<notin> set ns \<Longrightarrow> ndone + sum_list ns < len \<Longrightarrow>
   reaches os w (recv_events fd len ndone ns) w1 \<Longrightarrow>
   RecvAll_loop os fd len ndone ndone w =
     RecvAll_loop os fd len (ndone + sum_list ns) (ndone + sum_list ns) w1"
proof (induction ns arbitrary: ndone w)
  case Nil
  then show ?case by (simp add: reaches_Nil_iff)
next
  case (Cons n ns)
  let ?c = "SysRecv fd ndone (len - ndone) MSG_WAITALL"
  from Cons.prems(3) obtain k' where
    a: "os_answer os (kern w) ?c = (Ok (int n), k')" and
    r: "reaches os (w\<lparr>kern := k', trace := trace w @ [(?c, Ok (int n))]\<rparr>)
          (recv_events fd len (ndone + n) ns) w1"
    by (auto simp add: reaches_Ok)
  from a have s: "os_recv os (kern w) fd ndone (len - ndone) MSG_WAITALL = (Ret n, k')"
    by (auto split: prod.splits sysret.splits)
  from Cons.prems(1,2) have lt: "ndone < len" "0 < n" "0 \<notin> set ns"
    "ndone + n + sum_list ns < len" by simp_all
  from Cons.IH[OF lt(3,4) r] RecvAll_loop_Ret[OF lt(1) s lt(2)]
  show ?case by (simp add: add.assoc)
qed

lemma RecvAll_loop_complete:
  "0 \<notin> set ns \<Longrightarrow> ndone + sum_list ns = len \<Longrightarrow>
   reaches os w (recv_events fd len ndone ns) w1 \<Longrightarrow>
   RecvAll_loop os fd len ndone ndone w = Some (Inr len, w1)"
proof (induction ns arbitrary: ndone w)
  case Nil
  then show ?case by (simp add: reaches_Nil_iff RecvAll_loop_done)
next
  case (Cons n ns)
  let ?c = "SysRecv fd ndone (len - ndone) MSG_WAITALL"
  from Cons.prems(3) obtain k' where
    a: "os_answer os (kern w) ?c = (Ok (int n), k')" and
    r: "reaches os (w\<lparr>kern := k', trace := trace w @ [(?c, Ok (int n))]\<rparr>)
          (recv_events fd len (ndone + n) ns) w1"
    by (auto simp add: reaches_Ok)
  from a have s: "os_recv os (kern w) fd ndone (len - ndone) MSG_WAITALL = (Ret n, k')"
    by (auto split: prod.splits sysret.splits)
  from Cons.prems(1,2) have lt: "ndone < len" "0 < n" "0 \<notin> set ns"
    "ndone + n + sum_list ns = len" by simp_all
  from Cons.IH[OF lt(3,4) r] RecvAll_loop_Ret[OF lt(1) s lt(2)]
  show ?case by simp
qed

lemma sim_recv_within: "recv_within_request sim_os"
  by (auto simp add: recv_within_request_def sim_os_def)

lemma sim_peer_closed: "peer_closed_after sim_os (\<lambda>k. k)"
  by (auto simp add: peer_closed_after_def sim_os_def)

lemma sim_nonblock_recv_within: "recv_within_request sim_os_nonblock"
  by (auto simp add: recv_within_request_def sim_os_nonblock_def sim_os_def split: if_splits)

lemma sim_reset_recv_within: "recv_within_request sim_os_reset"
  by (simp add: recv_within_request_def sim_os_reset_def sim_os_def)


text \<open>
  C2. \<^verbatim>\<open>RecvAll\<close> always returns. On a platform whose receives never report more than
  was requested, its run has issued only receives, each for exactly the count that
  remains, the platform answering each as logged, and ends in one of four ways:
  everything was received and the result is \<open>len\<close>; the last receive failed with
  \<open>EAGAIN\<close> or \<open>EWOULDBLOCK\<close>, or it read 0 bytes, and the result is the count received
  before it, as an ordinary value; the last receive failed with another errno and the
  operation aborted with the message of \<^verbatim>\<open>Socket::Error\<close>. When the platform delivers
  \<open>ns\<close> bytes, short of \<open>len\<close>, and then fails the next receive, \<^verbatim>\<open>RecvAll\<close> returns the
  partial count if the errno is \<open>EAGAIN\<close> or \<open>EWOULDBLOCK\<close> and aborts otherwise; when
  the next receive reads 0 bytes it returns the partial count; when the platform
  delivers \<open>len\<close> bytes it returns \<open>len\<close>. So when the peer has closed after sending
  \<open>N < len\<close> bytes, \<^verbatim>\<open>RecvAll\<close> returns exactly \<open>N\<close>.
\<close>

theorem RecvAll_correct:
  assumes c: "recv_within_request os"
  shows "(\<forall>r w'. RecvAll os w s len = Some (r, w') \<longrightarrow>
            (\<exists>ns evs. sum_list ns \<le> len \<and> 0 \<notin> set ns \<and> reaches os w evs w' \<and>
               ((r = Inr len \<and> sum_list ns = len \<and> evs = recv_events (sockfd s) len 0 ns)
              \<or> (\<exists>e. (e = EAGAIN \<or> e = EWOULDBLOCK) \<and>
                      r = Inr (sum_list ns) \<and> sum_list ns < len \<and>
                      evs = recv_events (sockfd s) len 0 ns @
                        [(SysRecv (sockfd s) (sum_list ns) (len - sum_list ns) MSG_WAITALL, Err e)])
              \<or> (r = Inr (sum_list ns) \<and> sum_list ns < len \<and>
                  evs = recv_events (sockfd s) len 0 ns @
                    [(SysRecv (sockfd s) (sum_list ns) (len - sum_list ns) MSG_WAITALL, Ok 0)])
              \<or> (\<exists>e. e \<noteq> EAGAIN \<and> e \<noteq> EWOULDBLOCK \<and>
                      r = Inl (Fatal (''Socket RecvAll Error:'' @ os_strerror os e)) \<and>
                      sum_list ns < len \<and>
                      evs = recv_events (sockfd s) len 0 ns @
                        [(SysRecv (sockfd s) (sum_list ns) (len - sum_list ns) MSG_WAITALL, Err e)]))))
       \<and> (\<exists>r w'. RecvAll os w s len = Some (r, w'))
       \<and> (\<forall>ns w1 e k'.
             0 \<notin> set ns \<and> sum_list ns < len \<and>
             reaches os w (recv_events (sockfd s) len 0 ns) w1 \<and>
             os_recv os (kern w1) (sockfd s) (sum_list ns) (len - sum_list ns) MSG_WAITALL
               = (Fail e, k') \<longrightarrow>
             RecvAll os w s len =
               Some (if e = EAGAIN \<or> e = EWOULDBLOCK then Inr (sum_list ns)
                     else Inl (Fatal (''Socket RecvAll Error:'' @ os_strerror os e)),
                     w1\<lparr>errno := e, kern := k',
                        trace := trace w1 @
                          [(SysRecv (sockfd s) (sum_list ns) (len - sum_list ns) MSG_WAITALL,
                            Err e)]\<rparr>))
       \<and> (\<forall>ns w1 k'.
             0 \<notin> set ns \<and> sum_list ns < len \<and>
             reaches os w (recv_events (sockfd s) len 0 ns) w1 \<and>
             os_recv os (kern w1) (sockfd s) (sum_list ns) (len - sum_list ns) MSG_WAITALL
               = (Ret 0, k') \<longrightarrow>
             RecvAll os w s len =
               Some (Inr (sum_list ns),
                     w1\<lparr>kern := k',
                        trace := trace w1 @
                          [(SysRecv (sockfd s) (sum_list ns) (len - sum_list ns) MSG_WAITALL,
                            Ok 0)]\<rparr>))
       \<and> (\<forall>ns w1. 0 \<notin> set ns \<and> sum_list ns = len \<and>
             reaches os w (recv_events (sockfd s) len 0 ns) w1 \<longrightarrow>
             RecvAll os w s len = Some (Inr len, w1))
       \<and> (\<forall>pending. peer_closed_after os pending \<and> pending (kern w) < len \<longrightarrow>
             (\<exists>w'. RecvAll os w s len = Some (Inr (pending (kern w)), w')))"
proof (intro conjI allI impI)
  fix r w'
  assume run: "RecvAll os w s len = Some (r, w')"
  then have loop: "RecvAll_loop os (sockfd s) len 0 0 w = Some (r, w')"
    by (simp add: RecvAll_def)
  from RecvAll_loop_sound[OF loop] obtain ns evs where
    ns: "0 \<notin> set ns" "reaches os w evs w'" "RecvAll_ends os (sockfd s) len 0 ns evs r"
    by auto
  from RecvAll_loop_le[OF loop] c have le: "\<And>n. r = Inr n \<Longrightarrow> n \<le> len" by simp
  from ns le show "\<exists>ns evs. sum_list ns \<le> len \<and> 0 \<notin> set ns \<and> reaches os w evs w' \<and>
               ((r = Inr len \<and> sum_list ns = len \<and> evs = recv_events (sockfd s) len 0 ns)
              \<or> (\<exists>e. (e = EAGAIN \<or> e = EWOULDBLOCK) \<and>
                      r = Inr (sum_list ns) \<and> sum_list ns < len \<and>
                      evs = recv_events (sockfd s) len 0 ns @
                        [(SysRecv (sockfd s) (sum_list ns) (len - sum_list ns) MSG_WAITALL, Err e)])
              \<or> (r = Inr (sum_list ns) \<and> sum_list ns < len \<and>
                  evs = recv_events (sockfd s) len 0 ns @
                    [(SysRecv (sockfd s) (sum_list ns) (len - sum_list ns) MSG_WAITALL, Ok 0)])
              \<or> (\<exists>e. e \<noteq> EAGAIN \<and> e \<noteq> EWOULDBLOCK \<and>
                      r = Inl (Fatal (''Socket RecvAll Error:'' @ os_strerror os e)) \<and>
                      sum_list ns < len \<and>
                      evs = recv_events (sockfd s) len 0 ns @
                        [(SysRecv (sockfd s) (sum_list ns) (len - sum_list ns) MSG_WAITALL, Err e)]))"
    unfolding RecvAll_ends_def Let_def
    by (intro exI[of _ ns] exI[of _ evs]) (use le in force)
next
  from RecvAll_loop_returns[of os "sockfd s" len 0 0 w]
  show "\<exists>r w'. RecvAll os w s len = Some (r, w')"
    by (auto simp add: RecvAll_def)
next
  fix ns w1 e k'
  assume "0 \<notin> set ns \<and> sum_list ns < len \<and>
          reaches os w (recv_events (sockfd s) len 0 ns) w1 \<and>
          os_recv os (kern w1) (sockfd s) (sum_list ns) (len - sum_list ns) MSG_WAITALL
            = (Fail e, k')"
  then have z: "0 \<notin> set ns" and lt: "sum_list ns < len"
    and r: "reaches os w (recv_events (sockfd s) len 0 ns) w1"
    and f: "os_recv os (kern w1) (sockfd s) (sum_list ns) (len - sum_list ns) MSG_WAITALL
              = (Fail e, k')"
    by simp_all
  from RecvAll_loop_prefix[of ns 0 len os w "sockfd s" w1] z lt r
  have "RecvAll_loop os (sockfd s) len 0 0 w =
          RecvAll_loop os (sockfd s) len (sum_list ns) (sum_list ns) w1"
    by simp
  with RecvAll_loop_Fail[OF lt f]
  show "RecvAll os w s len =
               Some (if e = EAGAIN \<or> e = EWOULDBLOCK then Inr (sum_list ns)
                     else Inl (Fatal (''Socket RecvAll Error:'' @ os_strerror os e)),
                     w1\<lparr>errno := e, kern := k',
                        trace := trace w1 @
                          [(SysRecv (sockfd s) (sum_list ns) (len - sum_list ns) MSG_WAITALL,
                            Err e)]\<rparr>)"
    by (simp add: RecvAll_def)
next
  fix ns w1 k'
  assume "0 \<notin> set ns \<and> sum_list ns < len \<and>
          reaches os w (recv_events (sockfd s) len 0 ns) w1 \<and>
          os_recv os (kern w1) (sockfd s) (sum_list ns) (len - sum_list ns) MSG_WAITALL
            = (Ret 0, k')"
  then have z: "0 \<notin> set ns" and lt: "sum_list ns < len"
    and r: "reaches os w (recv_events (sockfd s) len 0 ns) w1"
    and f: "os_recv os (kern w1) (sockfd s) (sum_list ns) (len - sum_list ns) MSG_WAITALL
              = (Ret 0, k')"
    by simp_all
  from RecvAll_loop_prefix[of ns 0 len os w "sockfd s" w1] z lt r
  have "RecvAll_loop os (sockfd s) len 0 0 w =
          RecvAll_loop os (sockfd s) len (sum_list ns) (sum_list ns) w1"
    by simp
  with RecvAll_loop_zero[OF lt f]
  show "RecvAll os w s len =
               Some (Inr (sum_list ns),
                     w1\<lparr>kern := k',
                        trace := trace w1 @
                          [(SysRecv (sockfd s) (sum_list ns) (len - sum_list ns) MSG_WAITALL,
                            Ok 0)]\<rparr>)"
    by (simp add: RecvAll_def)
next
  fix ns w1
  assume "0 \<notin> set ns \<and> sum_list ns = len \<and>
          reaches os w (recv_events (sockfd s) len 0 ns) w1"
  then show "RecvAll os w s len = Some (Inr len, w1)"
    using RecvAll_loop_complete[of ns 0 len os w "sockfd s" w1]
    by (simp add: RecvAll_def)
next
  fix pending
  assume "peer_closed_after os pending \<and> pending (kern w) < len"
  then have p: "peer_closed_after os pending" and n: "pending (kern w) < len" by simp_all
  from RecvAll_loop_stream[OF p, of 0 len "sockfd s" 0 w] n
  show "\<exists>w'. RecvAll os w s len = Some (Inr (pending (kern w)), w')"
    by (simp add: RecvAll_def min_def)
qed

theorem RecvAll_correct_witness:
  "recv_within_request sim_os \<and> peer_closed_after sim_os (\<lambda>k. k) \<and>
   kern (sim_world 3) < 5 \<and>
   RecvAll sim_os (sim_world 3) (TCPSocket 7) 5 =
     Some (Inr 3, \<lparr>errno = ENONE, kern = 0,
                   trace = [(SysRecv 7 0 5 MSG_WAITALL, Ok 2), (SysRecv 7 2 3 MSG_WAITALL, Ok 1),
                            (SysRecv 7 3 2 MSG_WAITALL, Ok 0)]\<rparr>) \<and>
   RecvAll sim_os_nonblock (sim_world 3) (TCPSocket 7) 5 =
     Some (Inr 3, \<lparr>errno = EAGAIN, kern = 0,
                   trace = [(SysRecv 7 0 5 MSG_WAITALL, Ok 3),
                            (SysRecv 7 3 2 MSG_WAITALL, Err EAGAIN)]\<rparr>) \<and>
   RecvAll sim_os_reset (sim_world 0) (TCPSocket 7) 5 =
     Some (Inl (Fatal ''Socket RecvAll Error:Connection reset by peer''),
           \<lparr>errno = ECONNRESET, kern = 0,
             trace = [(SysRecv 7 0 5 MSG_WAITALL, Err ECONNRESET)]\<rparr>) \<and>
   RecvAll sim_os_nonblock (sim_world 5) (TCPSocket 7) 5 =
     Some (Inr 5, \<lparr>errno = ENONE, kern = 0, trace = [(SysRecv 7 0 5 MSG_WAITALL, Ok 5)]\<rparr>) \<and>
   (\<exists>w'. RecvAll sim_os (sim_world 4) (TCPSocket 7) 5 = Some (Inr 4, w')) \<and>
   (\<exists>ns. sum_list ns = 3 \<and> 0 \<notin> set ns \<and>
      reaches sim_os (sim_world 3)
        (recv_events 7 5 0 ns @ [(SysRecv 7 3 2 MSG_WAITALL, Ok 0)])
        \<lparr>errno = ENONE, kern = 0,
          trace = [(SysRecv 7 0 5 MSG_WAITALL, Ok 2), (SysRecv 7 2 3 MSG_WAITALL, Ok 1),
                   (SysRecv 7 3 2 MSG_WAITALL, Ok 0)]\<rparr>)"
proof -
  note bl = RecvAll_correct[OF sim_recv_within, of "sim_world 3" "TCPSocket 7" 5]
  note nb = RecvAll_correct[OF sim_nonblock_recv_within, of "sim_world 3" "TCPSocket 7" 5]
  note rs = RecvAll_correct[OF sim_reset_recv_within, of "sim_world 0" "TCPSocket 7" 5]
  note fl = RecvAll_correct[OF sim_nonblock_recv_within, of "sim_world 5" "TCPSocket 7" 5]
  have fd: "sockfd (TCPSocket 7) = 7" by (simp add: TCPSocket_def)
  have k: "kern (sim_world 3) = 3" "kern (sim_world 4) = 4" by (simp_all add: sim_world_def)
  \<comment> \<open>2 bytes, 1 byte, then the end of the stream\<close>
  let ?w2 = "\<lparr>errno = ENONE, kern = 0 :: nat,
               trace = [(SysRecv 7 0 5 MSG_WAITALL, Ok 2), (SysRecv 7 2 3 MSG_WAITALL, Ok 1)]\<rparr>"
  have r1: "reaches sim_os (sim_world 3) (recv_events 7 5 0 [2, 1]) ?w2"
    by (simp add: reaches_def sim_os_def sim_world_def)
  have z1: "os_recv sim_os 0 7 3 2 MSG_WAITALL = (Ret 0, 0)"
    by (simp add: sim_os_def)
  from bl[THEN conjunct2, THEN conjunct2, THEN conjunct2, THEN conjunct1, rule_format,
      of "[2, 1]" ?w2 0] r1 z1 fd
  have 1: "RecvAll sim_os (sim_world 3) (TCPSocket 7) 5 =
     Some (Inr 3, \<lparr>errno = ENONE, kern = 0,
                   trace = [(SysRecv 7 0 5 MSG_WAITALL, Ok 2), (SysRecv 7 2 3 MSG_WAITALL, Ok 1),
                            (SysRecv 7 3 2 MSG_WAITALL, Ok 0)]\<rparr>)"
    by simp
  \<comment> \<open>3 bytes, then would-block\<close>
  let ?w3 = "\<lparr>errno = ENONE, kern = 0 :: nat, trace = [(SysRecv 7 0 5 MSG_WAITALL, Ok 3)]\<rparr>"
  have r2: "reaches sim_os_nonblock (sim_world 3) (recv_events 7 5 0 [3]) ?w3"
    by (simp add: reaches_def sim_os_nonblock_def sim_os_def sim_world_def)
  have f2: "os_recv sim_os_nonblock 0 7 3 2 MSG_WAITALL = (Fail EAGAIN, 0)"
    by (simp add: sim_os_nonblock_def sim_os_def)
  from nb[THEN conjunct2, THEN conjunct2, THEN conjunct1, rule_format,
      of "[3]" ?w3 EAGAIN 0] r2 f2 fd
  have 2: "RecvAll sim_os_nonblock (sim_world 3) (TCPSocket 7) 5 =
     Some (Inr 3, \<lparr>errno = EAGAIN, kern = 0,
                   trace = [(SysRecv 7 0 5 MSG_WAITALL, Ok 3),
                            (SysRecv 7 3 2 MSG_WAITALL, Err EAGAIN)]\<rparr>)"
    by simp
  \<comment> \<open>the first receive fails with another errno\<close>
  have f3: "os_recv sim_os_reset (kern (sim_world 0)) 7 0 5 MSG_WAITALL = (Fail ECONNRESET, 0)"
    and m3: "os_strerror sim_os_reset ECONNRESET = ''Connection reset by peer''"
    by (simp_all add: sim_os_reset_def sim_os_def sim_world_def)
  from rs[THEN conjunct2, THEN conjunct2, THEN conjunct1, rule_format,
      of "[]" "sim_world 0" ECONNRESET 0] f3 m3 fd
  have 3: "RecvAll sim_os_reset (sim_world 0) (TCPSocket 7) 5 =
     Some (Inl (Fatal ''Socket RecvAll Error:Connection reset by peer''),
           \<lparr>errno = ECONNRESET, kern = 0,
             trace = [(SysRecv 7 0 5 MSG_WAITALL, Err ECONNRESET)]\<rparr>)"
    by (simp add: reaches_Nil sim_world_def)
  \<comment> \<open>all 5 bytes at once\<close>
  have r4: "reaches sim_os_nonblock (sim_world 5) (recv_events 7 5 0 [5])
              \<lparr>errno = ENONE, kern = 0, trace = [(SysRecv 7 0 5 MSG_WAITALL, Ok 5)]\<rparr>"
    by (simp add: reaches_def sim_os_nonblock_def sim_os_def sim_world_def)
  from fl[THEN conjunct2, THEN conjunct2, THEN conjunct2, THEN conjunct2, THEN conjunct1,
      rule_format, of "[5]"] r4 fd
  have 4: "RecvAll sim_os_nonblock (sim_world 5) (TCPSocket 7) 5 =
     Some (Inr 5, \<lparr>errno = ENONE, kern = 0, trace = [(SysRecv 7 0 5 MSG_WAITALL, Ok 5)]\<rparr>)"
    by simp
  \<comment> \<open>the peer closed after 4 bytes\<close>
  from RecvAll_correct[OF sim_recv_within, of "sim_world 4" "TCPSocket 7" 5,
      THEN conjunct2, THEN conjunct2, THEN conjunct2, THEN conjunct2, THEN conjunct2,
      rule_format, of "\<lambda>k. k"] sim_peer_closed k
  have 5: "\<exists>w'. RecvAll sim_os (sim_world 4) (TCPSocket 7) 5 = Some (Inr 4, w')"
    by simp
  \<comment> \<open>the run that returned 3 at the end of the stream is one of the four endings\<close>
  let ?w' = "\<lparr>errno = ENONE, kern = 0 :: nat,
               trace = [(SysRecv 7 0 5 MSG_WAITALL, Ok 2), (SysRecv 7 2 3 MSG_WAITALL, Ok 1),
                        (SysRecv 7 3 2 MSG_WAITALL, Ok 0)]\<rparr>"
  from bl[THEN conjunct1, rule_format, OF 1] obtain ns evs where
    a: "reaches sim_os (sim_world 3) evs ?w'" "0 \<notin> set ns" "sum_list ns = 3"
       "(\<exists>e. evs = recv_events 7 5 0 ns @
               [(SysRecv 7 (sum_list ns) (5 - sum_list ns) MSG_WAITALL, Err e)]) \<or>
        evs = recv_events 7 5 0 ns @
               [(SysRecv 7 (sum_list ns) (5 - sum_list ns) MSG_WAITALL, Ok 0)]"
    by (auto simp add: fd)
  from a(1) have "trace ?w' = trace (sim_world 3) @ evs"
    by (simp add: reaches_def)
  then have "evs = [(SysRecv 7 0 5 MSG_WAITALL, Ok 2), (SysRecv 7 2 3 MSG_WAITALL, Ok 1),
                    (SysRecv 7 3 2 MSG_WAITALL, Ok 0)]"
    by (simp add: sim_world_def)
  with a(4) have "evs = recv_events 7 5 0 ns @
               [(SysRecv 7 (sum_list ns) (5 - sum_list ns) MSG_WAITALL, Ok 0)]"
    by auto
  with a(1,3) have "reaches sim_os (sim_world 3)
        (recv_events 7 5 0 ns @ [(SysRecv 7 3 2 MSG_WAITALL, Ok 0)]) ?w'"
    by simp
  with a(2,3)
  have 6: "\<exists>ns. sum_list ns = 3 \<and> 0 \<notin> set ns \<and>
      reaches sim_os (sim_world 3)
        (recv_events 7 5 0 ns @ [(SysRecv 7 3 2 MSG_WAITALL, Ok 0)]) ?w'"
    by blast
  from sim_recv_within sim_peer_closed k 1 2 3 4 5 6
  show ?thesis by simp
qed

subsection \<open>SockAddr\<close>

lemma swap_bytes_twice: "swap_bytes (swap_bytes x) = x"
  unfolding swap_bytes_def
  by (rule bit_word_eqI) (auto simp add: bit_simps)

lemma ntohs_htons: "ntohs os (htons os x) = x"
  by (simp add: ntohs_def htons_def swap_bytes_twice)

text \<open>
  C8. For every port in \<open>[0, 65535]\<close> and every host that resolves, \<^verbatim>\<open>Set\<close> builds an
  address whose \<^verbatim>\<open>port()\<close> is the original port, on either byte order.
\<close>

theorem port_round_trip:
  assumes "0 \<le> port" and "port \<le> 65535" and "os_gethostbyname os host = Some a"
  shows "\<exists>addr. SockAddr_Set os host port = Inr addr \<and> SockAddr_port os addr = port"
proof -
  from assms(1,2) have "uint (word_of_int port :: 16 word) = port"
    by (simp add: uint_word_of_int take_bit_eq_mod)
  with assms(3) show ?thesis
    by (simp add: SockAddr_Set_def SockAddr_port_def ntohs_htons)
qed

theorem port_round_trip_witness:
  "(0::int) \<le> 9000 \<and> (9000::int) \<le> 65535 \<and>
   os_gethostbyname sim_os ''127.0.0.1'' = Some 2130706433 \<and>
   SockAddr_Set sim_os ''127.0.0.1'' 9000 =
     Inr \<lparr>sin_family = 2, sin_port = 10275, sin_addr = 2130706433\<rparr> \<and>
   SockAddr_port sim_os \<lparr>sin_family = 2, sin_port = 10275, sin_addr = 2130706433\<rparr> = 9000"
proof -
  have h: "os_gethostbyname sim_os ''127.0.0.1'' = Some 2130706433"
    by (simp add: sim_os_def)
  have s: "SockAddr_Set sim_os ''127.0.0.1'' 9000 =
     Inr \<lparr>sin_family = 2, sin_port = 10275, sin_addr = 2130706433\<rparr>"
    by (simp add: SockAddr_Set_def sim_os_def htons_def swap_bytes_def AF_INET_def)
  from port_round_trip[of 9000 sim_os "''127.0.0.1''", OF _ _ h] s h
  show ?thesis by simp
qed

subsection \<open>TryBindHost\<close>










subsection \<open>Accept\<close>

text \<open>
  C4, as stated, fails: with no connection pending on a non-blocking handle, \<^verbatim>\<open>accept\<close>
  fails with \<open>EAGAIN\<close> and \<^verbatim>\<open>Accept\<close> aborts with the message of \<^verbatim>\<open>Socket::Error\<close>.
\<close>

theorem Accept_would_block_fatal:
  "os_accept sim_os (kern (sim_world 0)) (sockfd (TCPSocket 7)) = (Fail EAGAIN, 0) \<and>
   Accept sim_os (sim_world 0) (TCPSocket 7) =
     (Inl (Fatal ''Socket Accept Error:Resource temporarily unavailable''),
      \<lparr>errno = EAGAIN, kern = 0, trace = [(SysAccept 7, Err EAGAIN)]\<rparr>)"
  by (simp add: Accept_def libc_accept_def syscall_int_def sim_os_def sim_world_def
      TCPSocket_def INVALID_SOCKET_def Socket_Error_def utils_Error_def)

text \<open>
  C4, amended. \<^verbatim>\<open>Accept\<close> aborts with the message of \<^verbatim>\<open>Socket::Error\<close>, naming the
  operation and the platform's error text, on every failure of \<^verbatim>\<open>accept\<close>, would-block
  included; when \<^verbatim>\<open>accept\<close> succeeds it returns a new handle for the accepted descriptor.
\<close>

theorem Accept_spec:
  "(\<forall>e k'. os_accept os (kern w) (sockfd s) = (Fail e, k') \<longrightarrow>
      Accept os w s =
        (Inl (Fatal (''Socket Accept Error:'' @ os_strerror os e)),
         w\<lparr>errno := e, kern := k', trace := trace w @ [(SysAccept (sockfd s), Err e)]\<rparr>)) \<and>
   (\<forall>n k'. os_accept os (kern w) (sockfd s) = (Ret n, k') \<longrightarrow>
      Accept os w s =
        (Inr (TCPSocket (int n)),
         w\<lparr>kern := k', trace := trace w @ [(SysAccept (sockfd s), Ok (int n))]\<rparr>))"
  by (simp add: Accept_def libc_accept_def syscall_int_def INVALID_SOCKET_def
      Socket_Error_def utils_Error_def)

theorem Accept_spec_witness:
  "Accept sim_os (sim_world 0) (TCPSocket 7) =
     (Inl (Fatal ''Socket Accept Error:Resource temporarily unavailable''),
      \<lparr>errno = EAGAIN, kern = 0, trace = [(SysAccept 7, Err EAGAIN)]\<rparr>) \<and>
   Accept sim_os_peer (sim_world 0) (TCPSocket 7) =
     (Inr (TCPSocket 4), \<lparr>errno = ENONE, kern = 0, trace = [(SysAccept 7, Ok 4)]\<rparr>)"
proof -
  have a: "os_accept sim_os (kern (sim_world 0)) (sockfd (TCPSocket 7)) = (Fail EAGAIN, 0)"
    and b: "os_accept sim_os_peer (kern (sim_world 0)) (sockfd (TCPSocket 7)) = (Ret 4, 0)"
    and c: "os_strerror sim_os EAGAIN = ''Resource temporarily unavailable''"
    by (simp_all add: sim_os_peer_def sim_os_def sim_world_def)
  from Accept_spec[of sim_os "sim_world 0" "TCPSocket 7"] a c
  have 1: "Accept sim_os (sim_world 0) (TCPSocket 7) =
     (Inl (Fatal ''Socket Accept Error:Resource temporarily unavailable''),
      \<lparr>errno = EAGAIN, kern = 0, trace = [(SysAccept 7, Err EAGAIN)]\<rparr>)"
    by (simp add: sim_world_def TCPSocket_def)
  from Accept_spec[of sim_os_peer "sim_world 0" "TCPSocket 7"] b
  have 2: "Accept sim_os_peer (sim_world 0) (TCPSocket 7) =
     (Inr (TCPSocket 4), \<lparr>errno = ENONE, kern = 0, trace = [(SysAccept 7, Ok 4)]\<rparr>)"
    by (simp add: sim_world_def TCPSocket_def)
  from 1 2 show ?thesis ..
qed

subsection \<open>Listen\<close>

text \<open>\<^verbatim>\<open>Listen\<close> returns normally whatever \<^verbatim>\<open>listen\<close> returned.\<close>

lemma Listen_never_fatal: "fst (Listen os w s backlog) = Inr ()"
  by (simp add: Listen_def split: prod.splits)

text \<open>
  C6 does not hold of the code: \<^verbatim>\<open>listen\<close> on a handle that was never created fails
  with \<open>EBADF\<close>, and \<^verbatim>\<open>Listen\<close> returns normally, with no message.
\<close>

theorem Listen_ignores_failure:
  "os_listen sim_os (kern (sim_world 0)) (sockfd TCPSocket_default) 16 = (Fail EBADF, 0) \<and>
   Listen sim_os (sim_world 0) TCPSocket_default 16 =
     (Inr (), \<lparr>errno = EBADF, kern = 0, trace = [(SysListen (- 1) 16, Err EBADF)]\<rparr>)"
  by (simp add: Listen_def libc_listen_def syscall_int_def sim_os_def sim_world_def
      TCPSocket_default_def TCPSocket_def INVALID_SOCKET_def)

subsection \<open>Send and Recv\<close>

text \<open>
  C7. \<^verbatim>\<open>Send\<close> and \<^verbatim>\<open>Recv\<close> of a zero-length buffer return 0 and leave the world as it
  was (no call is issued); when the one \<^verbatim>\<open>send\<close> or \<^verbatim>\<open>recv\<close> of a non-empty buffer
  fails they return -1, with \<open>errno\<close> set by the call.
\<close>

theorem Send_Recv_spec:
  "Send os w s 0 flag = (0, w) \<and>
   Recv os w s 0 flag = (0, w) \<and>
   (\<forall>len e k'. 0 < len \<and> os_send os (kern w) (sockfd s) 0 len flag = (Fail e, k') \<longrightarrow>
      Send os w s len flag =
        (- 1, w\<lparr>errno := e, kern := k',
                trace := trace w @ [(SysSend (sockfd s) 0 len flag, Err e)]\<rparr>)) \<and>
   (\<forall>len e k'. 0 < len \<and> os_recv os (kern w) (sockfd s) 0 len flag = (Fail e, k') \<longrightarrow>
      Recv os w s len flag =
        (- 1, w\<lparr>errno := e, kern := k',
                trace := trace w @ [(SysRecv (sockfd s) 0 len flag, Err e)]\<rparr>))"
  by (simp add: Send_def Recv_def libc_send_def libc_recv_def syscall_int_def)

theorem Send_Recv_spec_witness:
  "Send sim_os_reset (sim_world 0) (TCPSocket 7) 0 0 = (0, sim_world 0) \<and>
   Recv sim_os_reset (sim_world 0) (TCPSocket 7) 0 0 = (0, sim_world 0) \<and>
   Send sim_os_reset (sim_world 0) (TCPSocket 7) 5 0 =
     (- 1, \<lparr>errno = ECONNRESET, kern = 0, trace = [(SysSend 7 0 5 0, Err ECONNRESET)]\<rparr>) \<and>
   Recv sim_os_reset (sim_world 0) (TCPSocket 7) 5 0 =
     (- 1, \<lparr>errno = ECONNRESET, kern = 0, trace = [(SysRecv 7 0 5 0, Err ECONNRESET)]\<rparr>)"
proof -
  have s: "os_send sim_os_reset (kern (sim_world 0)) (sockfd (TCPSocket 7)) 0 5 0
             = (Fail ECONNRESET, 0)"
    and r: "os_recv sim_os_reset (kern (sim_world 0)) (sockfd (TCPSocket 7)) 0 5 0
             = (Fail ECONNRESET, 0)"
    by (simp_all add: sim_os_reset_def sim_os_def sim_world_def)
  from Send_Recv_spec[of sim_os_reset "sim_world 0" "TCPSocket 7" 0] s r
  show ?thesis by (simp add: sim_world_def TCPSocket_def)
qed

subsection \<open>SelectHelper\<close>

lemma since_clear_snoc:
  "since_clear (ops @ [op]) = (if op = OpClear then [] else since_clear ops @ [op])"
  by (simp add: since_clear_def)

lemma run_select_ops_snoc:
  "run_select_ops (ops @ [op]) h = apply_select_op op (run_select_ops ops h)"
  by (simp add: run_select_ops_def)

lemma registered_snoc:
  "registered (ops @ [op]) = (if op = OpClear then {} else registered ops \<union> set (watched op))"
  by (auto simp add: registered_def since_clear_snoc)

lemma finite_registered: "finite (registered ops)"
  by (simp add: registered_def)

lemma Max_insert0_step:
  "finite A \<Longrightarrow> Max (insert 0 (A \<union> {fd})) = (if fd > Max (insert 0 A) then fd else Max (insert (0::int) A))"
proof -
  assume "finite A"
  then have "Max (insert fd (insert 0 A)) = max fd (Max (insert 0 A))"
    by (intro Max_insert) simp_all
  moreover have "insert 0 (A \<union> {fd}) = insert fd (insert 0 A)" by auto
  ultimately show ?thesis by (simp add: max_def)
qed

lemma run_select_ops_inv:
  "let h = run_select_ops ops (SelectHelper_new uninit) in
     maxfd h = Max (insert 0 (registered ops)) \<and>
     read_fds h = concat (map watched_read (since_clear ops)) \<and>
     write_fds h = concat (map watched_write (since_clear ops)) \<and>
     except_fds h = concat (map watched_except (since_clear ops))"
proof (induction ops rule: rev_induct)
  case Nil
  show ?case
    by (simp add: run_select_ops_def SelectHelper_new_def Clear_def registered_def since_clear_def)
next
  case (snoc op ops)
  let ?h = "run_select_ops ops (SelectHelper_new uninit)"
  from snoc have m: "maxfd ?h = Max (insert 0 (registered ops))"
    and r: "read_fds ?h = concat (map watched_read (since_clear ops))"
    and w: "write_fds ?h = concat (map watched_write (since_clear ops))"
    and e: "except_fds ?h = concat (map watched_except (since_clear ops))"
    by (simp_all add: Let_def)
  note fin = finite_registered[of ops]
  show ?case
  proof (cases op)
    case (OpWatchRead fd)
    with m r w e Max_insert0_step[OF fin, of fd] show ?thesis
      by (simp add: Let_def run_select_ops_snoc registered_snoc since_clear_snoc watched_def
          WatchRead_def)
  next
    case (OpWatchWrite fd)
    with m r w e Max_insert0_step[OF fin, of fd] show ?thesis
      by (simp add: Let_def run_select_ops_snoc registered_snoc since_clear_snoc watched_def
          WatchWrite_def)
  next
    case (OpWatchException fd)
    with m r w e Max_insert0_step[OF fin, of fd] show ?thesis
      by (simp add: Let_def run_select_ops_snoc registered_snoc since_clear_snoc watched_def
          WatchException_def)
  next
    case OpClear
    then show ?thesis
      by (simp add: Let_def run_select_ops_snoc registered_snoc since_clear_snoc Clear_def)
  qed
qed

lemma Max_insert0_nonneg:
  assumes "finite A" "A \<noteq> {}" "\<forall>x\<in>A. (0::int) \<le> x"
  shows "Max (insert 0 A) = Max A"
proof -
  from assms have "0 \<le> Max A" by (meson Max_in)
  with assms show ?thesis by (simp add: max_def)
qed

lemma registered_subset: "registered ops \<subseteq> set (concat (map watched ops))"
proof -
  have "set (since_clear ops) \<subseteq> set ops"
    unfolding since_clear_def using set_takeWhileD by fastforce
  then show ?thesis by (auto simp add: registered_def)
qed

lemma registered_sim: "registered sim_ops = {2, 4}"
  by (simp add: registered_def since_clear_def sim_ops_def watched_def insert_commute)

text \<open>
  C9. After any sequence of \<^verbatim>\<open>WatchRead\<close>, \<^verbatim>\<open>WatchWrite\<close>, \<^verbatim>\<open>WatchException\<close> and \<^verbatim>\<open>Clear\<close>
  calls on a newly constructed \<^verbatim>\<open>SelectHelper\<close>, all with non-negative descriptors,
  \<open>maxfd\<close> is the maximum of the descriptors registered since the last \<^verbatim>\<open>Clear\<close>, and 0
  when there is none; the three lists hold exactly these descriptors; \<^verbatim>\<open>Clear\<close> empties
  the three lists and sets \<open>maxfd\<close> to 0.
\<close>

theorem maxfd_tracks_maximum:
  assumes "\<forall>fd \<in> set (concat (map watched ops)). 0 \<le> fd"
  shows "maxfd (run_select_ops ops (SelectHelper_new uninit)) =
           (if registered ops = {} then 0 else Max (registered ops)) \<and>
         set (read_fds (run_select_ops ops (SelectHelper_new uninit))) \<union>
         set (write_fds (run_select_ops ops (SelectHelper_new uninit))) \<union>
         set (except_fds (run_select_ops ops (SelectHelper_new uninit))) = registered ops \<and>
         read_fds (Clear h) = [] \<and> write_fds (Clear h) = [] \<and> except_fds (Clear h) = [] \<and>
         maxfd (Clear h) = 0"
proof -
  let ?h = "run_select_ops ops (SelectHelper_new uninit)"
  from run_select_ops_inv[of ops uninit]
  have m: "maxfd ?h = Max (insert 0 (registered ops))"
    and r: "read_fds ?h = concat (map watched_read (since_clear ops))"
    and w: "write_fds ?h = concat (map watched_write (since_clear ops))"
    and e: "except_fds ?h = concat (map watched_except (since_clear ops))"
    by (simp_all add: Let_def)
  from assms registered_subset[of ops] have nn: "\<forall>x\<in>registered ops. 0 \<le> x" by blast
  have 1: "maxfd ?h = (if registered ops = {} then 0 else Max (registered ops))"
    using m Max_insert0_nonneg[OF finite_registered _ nn] by simp
  have 2: "set (read_fds ?h) \<union> set (write_fds ?h) \<union> set (except_fds ?h) = registered ops"
    unfolding r w e registered_def watched_def by auto
  from 1 2 show ?thesis by (simp add: Clear_def)
qed

theorem maxfd_tracks_maximum_witness:
  "concat (map watched sim_ops) = [5, 9, 4, 2] \<and>
   registered sim_ops = {2, 4} \<and>
   maxfd (run_select_ops sim_ops (SelectHelper_new sim_helper)) = 4"
proof -
  have nn: "\<forall>fd \<in> set (concat (map watched sim_ops)). 0 \<le> fd"
    by (simp add: sim_ops_def watched_def)
  have "concat (map watched sim_ops) = [5, 9, 4, 2]"
    by (simp add: sim_ops_def watched_def)
  with maxfd_tracks_maximum[OF nn, of sim_helper] registered_sim
  show ?thesis by simp
qed

subsection \<open>Close\<close>

lemma libc_close_Ret:
  "os_close os (kern w) fd = (Ret u, k') \<Longrightarrow>
   libc_close os w fd = (0, w\<lparr>kern := k', trace := trace w @ [(SysClose fd, Ok 0)]\<rparr>)"
  by (simp add: libc_close_def syscall_int_def)

lemma libc_close_Fail:
  "os_close os (kern w) fd = (Fail e, k') \<Longrightarrow>
   libc_close os w fd =
     (- 1, w\<lparr>errno := e, kern := k', trace := trace w @ [(SysClose fd, Err e)]\<rparr>)"
  by (simp add: libc_close_def syscall_int_def)

lemma Create_valid:
  "Create os w s = (Inr (), s1, w1) \<Longrightarrow> sockfd s1 \<noteq> INVALID_SOCKET"
  by (auto simp add: Create_def Let_def split: prod.splits if_splits)

text \<open>
  C5. \<^verbatim>\<open>Close\<close> on a handle with a valid descriptor issues \<^verbatim>\<open>close\<close> on that descriptor,
  whatever the call answers, and sets the descriptor to \<open>INVALID_SOCKET\<close>; on a handle
  whose descriptor is \<open>INVALID_SOCKET\<close> it issues nothing and reports an error through
  \<^verbatim>\<open>Socket::Error\<close>. \<^verbatim>\<open>Create\<close> succeeds when \<^verbatim>\<open>socket\<close> does, with the descriptor it
  returned, and after a successful \<^verbatim>\<open>Create\<close> the first \<^verbatim>\<open>Close\<close> succeeds, with the
  descriptor closed, and a second \<^verbatim>\<open>Close\<close> reports the error and issues nothing.
\<close>

theorem Close_spec:
  "(sockfd s \<noteq> INVALID_SOCKET \<longrightarrow>
      (\<forall>u k'. os_close os (kern w) (sockfd s) = (Ret u, k') \<longrightarrow>
         Close os w s =
           (Inr (), s\<lparr>sockfd := INVALID_SOCKET\<rparr>,
            w\<lparr>kern := k', trace := trace w @ [(SysClose (sockfd s), Ok 0)]\<rparr>)) \<and>
      (\<forall>e k'. os_close os (kern w) (sockfd s) = (Fail e, k') \<longrightarrow>
         Close os w s =
           (Inr (), s\<lparr>sockfd := INVALID_SOCKET\<rparr>,
            w\<lparr>errno := e, kern := k', trace := trace w @ [(SysClose (sockfd s), Err e)]\<rparr>))) \<and>
   (sockfd s = INVALID_SOCKET \<longrightarrow>
      Close os w s =
        (Inl (Fatal (''Socket Socket::Close double close the socket or close without create Error:''
                     @ os_strerror os (errno w))), s, w)) \<and>
   (\<forall>n k'. os_socket os (kern w) = (Ret n, k') \<longrightarrow>
      Create os w s =
        (Inr (), s\<lparr>sockfd := int n\<rparr>,
         w\<lparr>kern := k', trace := trace w @ [(SysSocket, Ok (int n))]\<rparr>)) \<and>
   (\<forall>s1 w1. Create os w s = (Inr (), s1, w1) \<longrightarrow>
      sockfd s1 \<noteq> INVALID_SOCKET \<and>
      (\<exists>out w2 f.
         Close os w1 s1 = (Inr (), s1\<lparr>sockfd := INVALID_SOCKET\<rparr>, w2) \<and>
         reaches os w1 [(SysClose (sockfd s1), out)] w2 \<and>
         Close os w2 (s1\<lparr>sockfd := INVALID_SOCKET\<rparr>) =
           (Inl f, s1\<lparr>sockfd := INVALID_SOCKET\<rparr>, w2)))"
proof (intro conjI impI allI)
  fix u k'
  assume "sockfd s \<noteq> INVALID_SOCKET" "os_close os (kern w) (sockfd s) = (Ret u, k')"
  then show "Close os w s =
           (Inr (), s\<lparr>sockfd := INVALID_SOCKET\<rparr>,
            w\<lparr>kern := k', trace := trace w @ [(SysClose (sockfd s), Ok 0)]\<rparr>)"
    by (simp add: Close_def libc_close_Ret)
next
  fix e k'
  assume "sockfd s \<noteq> INVALID_SOCKET" "os_close os (kern w) (sockfd s) = (Fail e, k')"
  then show "Close os w s =
           (Inr (), s\<lparr>sockfd := INVALID_SOCKET\<rparr>,
            w\<lparr>errno := e, kern := k', trace := trace w @ [(SysClose (sockfd s), Err e)]\<rparr>)"
    by (simp add: Close_def libc_close_Fail)
next
  assume "sockfd s = INVALID_SOCKET"
  then show "Close os w s =
        (Inl (Fatal (''Socket Socket::Close double close the socket or close without create Error:''
                     @ os_strerror os (errno w))), s, w)"
    by (simp add: Close_def Socket_Error_def utils_Error_def)
next
  fix n k'
  assume "os_socket os (kern w) = (Ret n, k')"
  then show "Create os w s =
        (Inr (), s\<lparr>sockfd := int n\<rparr>,
         w\<lparr>kern := k', trace := trace w @ [(SysSocket, Ok (int n))]\<rparr>)"
    by (simp add: Create_def libc_socket_def syscall_int_def INVALID_SOCKET_def)
next
  fix s1 w1
  assume "Create os w s = (Inr (), s1, w1)"
  then show "sockfd s1 \<noteq> INVALID_SOCKET" by (rule Create_valid)
next
  fix s1 w1
  assume "Create os w s = (Inr (), s1, w1)"
  then have v: "sockfd s1 \<noteq> INVALID_SOCKET" by (rule Create_valid)
  let ?s2 = "s1\<lparr>sockfd := INVALID_SOCKET\<rparr>"
  let ?c = "SysClose (sockfd s1)"
  have second: "\<And>w2. Close os w2 ?s2 =
      (Inl (Socket_Error os w2
              ''Socket::Close double close the socket or close without create''), ?s2, w2)"
    by (simp add: Close_def)
  obtain r k' where r: "os_close os (kern w1) (sockfd s1) = (r, k')"
    by (cases "os_close os (kern w1) (sockfd s1)")
  show "\<exists>out w2 f.
         Close os w1 s1 = (Inr (), ?s2, w2) \<and> reaches os w1 [(?c, out)] w2 \<and>
         Close os w2 ?s2 = (Inl f, ?s2, w2)"
  proof (cases r)
    case (Ret u)
    let ?w2 = "w1\<lparr>kern := k', trace := trace w1 @ [(?c, Ok 0)]\<rparr>"
    from v r Ret have 1: "Close os w1 s1 = (Inr (), ?s2, ?w2)"
      by (simp add: Close_def libc_close_Ret)
    from r Ret have "os_answer os (kern w1) ?c = (Ok 0, k')" by simp
    with reaches_Nil[of os ?w2] have 2: "reaches os w1 [(?c, Ok 0)] ?w2"
      unfolding reaches_Ok by blast
    from 1 2 second[of ?w2] show ?thesis by blast
  next
    case (Fail e)
    let ?w2 = "w1\<lparr>errno := e, kern := k', trace := trace w1 @ [(?c, Err e)]\<rparr>"
    from v r Fail have 1: "Close os w1 s1 = (Inr (), ?s2, ?w2)"
      by (simp add: Close_def libc_close_Fail)
    from r Fail have "os_answer os (kern w1) ?c = (Err e, k')" by simp
    with reaches_Nil[of os ?w2] have 2: "reaches os w1 [(?c, Err e)] ?w2"
      unfolding reaches_Err by blast
    from 1 2 second[of ?w2] show ?thesis by blast
  qed
qed

theorem Close_spec_witness:
  "sockfd (TCPSocket 3) \<noteq> INVALID_SOCKET \<and>
   sockfd TCPSocket_default = INVALID_SOCKET \<and>
   Close sim_os (sim_world 0) (TCPSocket 3) =
     (Inr (), TCPSocket INVALID_SOCKET,
      \<lparr>errno = ENONE, kern = 0, trace = [(SysClose 3, Ok 0)]\<rparr>) \<and>
   Close sim_os_faulty (sim_world 0) (TCPSocket 3) =
     (Inr (), TCPSocket INVALID_SOCKET,
      \<lparr>errno = EBADF, kern = 0, trace = [(SysClose 3, Err EBADF)]\<rparr>) \<and>
   Close sim_os (sim_world 0) TCPSocket_default =
     (Inl (Fatal ''Socket Socket::Close double close the socket or close without create Error:Success''),
      TCPSocket_default, sim_world 0) \<and>
   Create sim_os (sim_world 0) TCPSocket_default =
     (Inr (), TCPSocket 3, \<lparr>errno = ENONE, kern = 0, trace = [(SysSocket, Ok 3)]\<rparr>) \<and>
   (\<exists>w2 f. Close sim_os \<lparr>errno = ENONE, kern = 0, trace = [(SysSocket, Ok 3)]\<rparr> (TCPSocket 3) =
              (Inr (), TCPSocket INVALID_SOCKET, w2) \<and>
            Close sim_os w2 (TCPSocket INVALID_SOCKET) = (Inl f, TCPSocket INVALID_SOCKET, w2))"
proof -
  have a: "sockfd (TCPSocket 3) \<noteq> INVALID_SOCKET"
    and b: "sockfd TCPSocket_default = INVALID_SOCKET"
    and u: "(TCPSocket 3)\<lparr>sockfd := INVALID_SOCKET\<rparr> = TCPSocket INVALID_SOCKET"
           "TCPSocket_default\<lparr>sockfd := 3\<rparr> = TCPSocket 3"
    by (simp_all add: TCPSocket_default_def TCPSocket_def INVALID_SOCKET_def)
  have c1: "os_close sim_os (kern (sim_world 0)) (sockfd (TCPSocket 3)) = (Ret (), 0)"
    and c2: "os_close sim_os_faulty (kern (sim_world 0)) (sockfd (TCPSocket 3)) = (Fail EBADF, 0)"
    and c3: "os_socket sim_os (kern (sim_world 0)) = (Ret 3, 0)"
    and m: "os_strerror sim_os (errno (sim_world 0)) = ''Success''"
    by (simp_all add: sim_os_faulty_def sim_os_def sim_world_def)
  from Close_spec[of "TCPSocket 3" sim_os "sim_world 0"] a c1 u
  have 1: "Close sim_os (sim_world 0) (TCPSocket 3) =
     (Inr (), TCPSocket INVALID_SOCKET,
      \<lparr>errno = ENONE, kern = 0, trace = [(SysClose 3, Ok 0)]\<rparr>)"
    by (simp add: sim_world_def TCPSocket_def)
  from Close_spec[of "TCPSocket 3" sim_os_faulty "sim_world 0"] a c2 u
  have 2: "Close sim_os_faulty (sim_world 0) (TCPSocket 3) =
     (Inr (), TCPSocket INVALID_SOCKET,
      \<lparr>errno = EBADF, kern = 0, trace = [(SysClose 3, Err EBADF)]\<rparr>)"
    by (simp add: sim_world_def TCPSocket_def)
  from Close_spec[of TCPSocket_default sim_os "sim_world 0"] b m
  have 3: "Close sim_os (sim_world 0) TCPSocket_default =
     (Inl (Fatal ''Socket Socket::Close double close the socket or close without create Error:Success''),
      TCPSocket_default, sim_world 0)"
    by simp
  from Close_spec[of TCPSocket_default sim_os "sim_world 0"] c3 u
  have 4: "Create sim_os (sim_world 0) TCPSocket_default =
     (Inr (), TCPSocket 3, \<lparr>errno = ENONE, kern = 0, trace = [(SysSocket, Ok 3)]\<rparr>)"
    by (simp add: sim_world_def)
  from Close_spec[of TCPSocket_default sim_os "sim_world 0"] 4
  have "\<exists>out w2 f.
         Close sim_os \<lparr>errno = ENONE, kern = 0, trace = [(SysSocket, Ok 3)]\<rparr> (TCPSocket 3) =
           (Inr (), (TCPSocket 3)\<lparr>sockfd := INVALID_SOCKET\<rparr>, w2) \<and>
         reaches sim_os \<lparr>errno = ENONE, kern = 0, trace = [(SysSocket, Ok 3)]\<rparr>
           [(SysClose (sockfd (TCPSocket 3)), out)] w2 \<and>
         Close sim_os w2 ((TCPSocket 3)\<lparr>sockfd := INVALID_SOCKET\<rparr>) =
           (Inl f, (TCPSocket 3)\<lparr>sockfd := INVALID_SOCKET\<rparr>, w2)"
    by blast
  with u have 5: "\<exists>w2 f.
      Close sim_os \<lparr>errno = ENONE, kern = 0, trace = [(SysSocket, Ok 3)]\<rparr> (TCPSocket 3) =
        (Inr (), TCPSocket INVALID_SOCKET, w2) \<and>
      Close sim_os w2 (TCPSocket INVALID_SOCKET) = (Inl f, TCPSocket INVALID_SOCKET, w2)"
    by auto
  from a b 1 2 3 4 5 show ?thesis by blast
qed

subsection \<open>Select\<close>

lemma FD_SET_each_Some:
  "\<forall>fd \<in> set fds. 0 \<le> fd \<and> fd < FD_SETSIZE \<Longrightarrow> FD_SET_each fds A = Some (set fds \<union> A)"
  by (induction fds arbitrary: A) (simp_all add: FD_SET_def)

lemma FD_SET_each_None:
  "FD_SET_each fds A = None \<longleftrightarrow> (\<exists>fd \<in> set fds. \<not> (0 \<le> fd \<and> fd < FD_SETSIZE))"
  by (induction fds arbitrary: A) (auto simp add: FD_SET_def)

text \<open>A registered descriptor that does not fit an \<^verbatim>\<open>fd_set\<close> makes \<^verbatim>\<open>Select\<close> undefined.\<close>

lemma Select_outside_fd_set:
  assumes "fd \<in> set (read_fds h @ write_fds h @ except_fds h)"
    and "\<not> (0 \<le> fd \<and> fd < FD_SETSIZE)"
  shows "Select os w h timeout = None"
proof -
  from assms have "FD_SET_each (read_fds h) {} = None \<or> FD_SET_each (write_fds h) {} = None
      \<or> FD_SET_each (except_fds h) {} = None"
    unfolding FD_SET_each_None by auto
  then show ?thesis
    by (auto simp add: Select_def Let_def FD_ZERO_def split: option.splits)
qed

lemma c_div_pos: "0 < a \<Longrightarrow> 0 < b \<Longrightarrow> c_div a b = a div b"
  by (simp add: c_div_def)

lemma c_mod_pos: "0 < a \<Longrightarrow> 0 < b \<Longrightarrow> c_mod a b = a mod b"
  by (simp add: c_mod_def c_div_pos minus_mult_div_eq_mod)

lemma libc_select_Ret:
  "os_select os (kern w) nfds rs ws es tm = (Ret (n, rs', ws', es'), k') \<Longrightarrow>
   libc_select os w nfds rs ws es tm =
     ((int n, rs', ws', es'),
      w\<lparr>kern := k', trace := trace w @ [(SysSelect nfds rs ws es tm, Ok (int n))]\<rparr>)"
  by (simp add: libc_select_def)

lemma libc_select_Fail:
  "os_select os (kern w) nfds rs ws es tm = (Fail e, k') \<Longrightarrow>
   libc_select os w nfds rs ws es tm =
     ((- 1, rs, ws, es),
      w\<lparr>errno := e, kern := k', trace := trace w @ [(SysSelect nfds rs ws es tm, Err e)]\<rparr>)"
  by (simp add: libc_select_def)

text \<open>\<^verbatim>\<open>Select\<close> on a helper whose descriptors fit an \<^verbatim>\<open>fd_set\<close>: the one call it makes.\<close>

lemma Select_call:
  assumes "\<forall>fd \<in> set (read_fds h @ write_fds h @ except_fds h). 0 \<le> fd \<and> fd < FD_SETSIZE"
    and "maxfd h < INT_MAX"
  shows "Select os w h timeout =
     (case libc_select os w (maxfd h + 1) (set (read_fds h)) (set (write_fds h))
             (set (except_fds h))
             (if timeout = 0 then None
              else Some \<lparr>tv_sec = c_div timeout 1000, tv_usec = c_mod timeout 1000 * 1000\<rparr>) of
        ((ret, rs', ws', es'), w1) \<Rightarrow>
          if ret = - 1
          then Some (Inl (Fatal (''Select Error: '' @ os_strerror os (errno w1))),
                     h\<lparr>read_set := rs', write_set := ws', except_set := es'\<rparr>, w1)
          else Some (Inr ret, h\<lparr>read_set := rs', write_set := ws', except_set := es'\<rparr>, w1))"
proof -
  from assms(1) have "FD_SET_each (read_fds h) {} = Some (set (read_fds h))"
    "FD_SET_each (write_fds h) {} = Some (set (write_fds h))"
    "FD_SET_each (except_fds h) {} = Some (set (except_fds h))"
    by (simp_all add: FD_SET_each_Some)
  with assms(2) show ?thesis
    by (simp add: Select_def Let_def FD_ZERO_def utils_Error_def split: prod.splits)
qed

text \<open>
  C10. On a helper whose registered descriptors all lie in \<open>[0, FD_SETSIZE)\<close> (and whose
  \<open>maxfd\<close> is below \<open>INT_MAX\<close>), \<^verbatim>\<open>Select\<close> issues exactly one \<^verbatim>\<open>select\<close>, on the three
  registered sets with \<open>maxfd + 1\<close>. With a timeout of 0 it passes the null timeout,
  which lets \<^verbatim>\<open>select\<close> wait without bound; with a timeout \<open>t > 0\<close> it passes
  \<open>t div 1000\<close> seconds and \<open>(t mod 1000) * 1000\<close> microseconds. It returns the count
  \<^verbatim>\<open>select\<close> returned, with the three sets as \<^verbatim>\<open>select\<close> left them, and aborts with the
  message \<^verbatim>\<open>Select Error\<close> when \<^verbatim>\<open>select\<close> fails.
\<close>

theorem Select_timeout:
  assumes "\<forall>fd \<in> set (read_fds h @ write_fds h @ except_fds h). 0 \<le> fd \<and> fd < FD_SETSIZE"
    and "maxfd h < INT_MAX"
    and "0 \<le> timeout"
  shows
    "(let tm = (if timeout = 0 then None
                else Some \<lparr>tv_sec = timeout div 1000, tv_usec = (timeout mod 1000) * 1000\<rparr>);
          rs = set (read_fds h); ws = set (write_fds h); es = set (except_fds h);
          call = SysSelect (maxfd h + 1) rs ws es tm
      in (\<forall>n rs' ws' es' k'.
            os_select os (kern w) (maxfd h + 1) rs ws es tm = (Ret (n, rs', ws', es'), k') \<longrightarrow>
            Select os w h timeout =
              Some (Inr (int n), h\<lparr>read_set := rs', write_set := ws', except_set := es'\<rparr>,
                    w\<lparr>kern := k', trace := trace w @ [(call, Ok (int n))]\<rparr>)) \<and>
         (\<forall>e k'.
            os_select os (kern w) (maxfd h + 1) rs ws es tm = (Fail e, k') \<longrightarrow>
            Select os w h timeout =
              Some (Inl (Fatal (''Select Error: '' @ os_strerror os e)),
                    h\<lparr>read_set := rs, write_set := ws, except_set := es\<rparr>,
                    w\<lparr>errno := e, kern := k', trace := trace w @ [(call, Err e)]\<rparr>)))"
proof -
  from assms(3) have tm: "(if timeout = 0 then None
       else Some \<lparr>tv_sec = c_div timeout 1000, tv_usec = c_mod timeout 1000 * 1000\<rparr>) =
      (if timeout = 0 then None
       else Some \<lparr>tv_sec = timeout div 1000, tv_usec = (timeout mod 1000) * 1000\<rparr>)"
    by (simp add: c_div_pos c_mod_pos)
  show ?thesis
    unfolding Let_def Select_call[OF assms(1,2)] tm
    by (auto simp add: libc_select_Ret libc_select_Fail)
qed

theorem Select_timeout_witness:
  "maxfd sim_helper < INT_MAX \<and> (0 :: int) \<le> 1500 \<and>
   set (read_fds sim_helper @ write_fds sim_helper @ except_fds sim_helper) = {3, 4, 5} \<and>
   Select sim_os (sim_world 0) sim_helper 0 =
     Some (Inr 0, sim_helper,
           \<lparr>errno = ENONE, kern = 0, trace = [(SysSelect 6 {3, 5} {4} {} None, Ok 0)]\<rparr>) \<and>
   Select sim_os (sim_world 0) sim_helper 1500 =
     Some (Inr 0, sim_helper,
           \<lparr>errno = ENONE, kern = 0,
             trace = [(SysSelect 6 {3, 5} {4} {}
                         (Some \<lparr>tv_sec = 1, tv_usec = 500000\<rparr>), Ok 0)]\<rparr>) \<and>
   Select sim_os_faulty (sim_world 0) sim_helper 1500 =
     Some (Inl (Fatal ''Select Error: Interrupted system call''),
           sim_helper\<lparr>read_set := {3, 5}, write_set := {4}\<rparr>,
           \<lparr>errno = EINTR, kern = 0,
             trace = [(SysSelect 6 {3, 5} {4} {}
                         (Some \<lparr>tv_sec = 1, tv_usec = 500000\<rparr>), Err EINTR)]\<rparr>)"
proof -
  have fds: "\<forall>fd \<in> set (read_fds sim_helper @ write_fds sim_helper @ except_fds sim_helper).
               0 \<le> fd \<and> fd < FD_SETSIZE"
    and mx: "maxfd sim_helper < INT_MAX"
    and st: "set (read_fds sim_helper @ write_fds sim_helper @ except_fds sim_helper) = {3, 4, 5}"
    by (auto simp add: sim_helper_def FD_SETSIZE_def INT_MAX_def)
  have h: "sim_helper\<lparr>read_set := {}, write_set := {}, except_set := {}\<rparr> = sim_helper"
    by (simp add: sim_helper_def)
  have s0: "\<And>tm. os_select sim_os (kern (sim_world 0)) (maxfd sim_helper + 1)
              (set (read_fds sim_helper)) (set (write_fds sim_helper))
              (set (except_fds sim_helper)) tm = (Ret (0, {}, {}, {}), 0)"
    and s1: "\<And>tm. os_select sim_os_faulty (kern (sim_world 0)) (maxfd sim_helper + 1)
              (set (read_fds sim_helper)) (set (write_fds sim_helper))
              (set (except_fds sim_helper)) tm = (Fail EINTR, 0)"
    and m: "os_strerror sim_os_faulty EINTR = ''Interrupted system call''"
    by (simp_all add: sim_os_faulty_def sim_os_def sim_world_def)
  have v: "maxfd sim_helper + 1 = 6" "set (read_fds sim_helper) = {3, 5}"
    "set (write_fds sim_helper) = {4}" "set (except_fds sim_helper) = {}"
    by (auto simp add: sim_helper_def)
  from Select_timeout[OF fds mx, of 0 sim_os "sim_world 0"] s0 h
  have 1: "Select sim_os (sim_world 0) sim_helper 0 =
     Some (Inr 0, sim_helper,
           \<lparr>errno = ENONE, kern = 0, trace = [(SysSelect 6 {3, 5} {4} {} None, Ok 0)]\<rparr>)"
    by (simp add: Let_def v sim_world_def)
  from Select_timeout[OF fds mx, of 1500 sim_os "sim_world 0"] s0 h
  have 2: "Select sim_os (sim_world 0) sim_helper 1500 =
     Some (Inr 0, sim_helper,
           \<lparr>errno = ENONE, kern = 0,
             trace = [(SysSelect 6 {3, 5} {4} {}
                         (Some \<lparr>tv_sec = 1, tv_usec = 500000\<rparr>), Ok 0)]\<rparr>)"
    by (simp add: Let_def v sim_world_def)
  from Select_timeout[OF fds mx, of 1500 sim_os_faulty "sim_world 0"] s1 m
  have 3: "Select sim_os_faulty (sim_world 0) sim_helper 1500 =
     Some (Inl (Fatal ''Select Error: Interrupted system call''),
           sim_helper\<lparr>read_set := {3, 5}, write_set := {4}\<rparr>,
           \<lparr>errno = EINTR, kern = 0,
             trace = [(SysSelect 6 {3, 5} {4} {}
                         (Some \<lparr>tv_sec = 1, tv_usec = 500000\<rparr>), Err EINTR)]\<rparr>)"
    by (simp add: Let_def v sim_world_def) (simp add: sim_helper_def)
  from mx st 1 2 3 show ?thesis by simp
qed

end
